theory Spec2Isabelle
  imports Main "HOL-Library.Sublist"
begin

section \<open>Python strings and built-ins used by the script\<close>

text \<open>
  The script \<^verbatim>\<open>tester.py\<close> builds an \<^verbatim>\<open>argparse.ArgumentParser\<close> with three required
  options, calls \<^verbatim>\<open>parse_args()\<close> and prints one greeting per index of
  \<^verbatim>\<open>range(args.clone_count)\<close>.

  Strings are byte strings: a Python \<^verbatim>\<open>str\<close> is represented by its UTF-8 encoding, which
  is what the operating system passes in \<^verbatim>\<open>sys.argv\<close> and what a UTF-8 standard output
  receives. Digits and white space are the ASCII ones (the decimal digits and spaces
  of Unicode beyond ASCII, which \<^verbatim>\<open>int\<close> and \<^verbatim>\<open>\d\<close> also accept, are not
  modelled). The library functions follow CPython 3.11.
\<close>

definition newline :: char where
  "newline = CHR 0x0A"

definition ord :: "char \<Rightarrow> nat" where
  "ord c = of_char c"

definition isdigit :: "char \<Rightarrow> bool" where
  "isdigit c = (48 \<le> ord c \<and> ord c \<le> 57)"

definition isspace :: "char \<Rightarrow> bool" where
  \<comment> \<open>the white space \<^verbatim>\<open>int\<close> strips: tab, line feed, vertical tab, form feed, carriage return, space\<close>
  "isspace c = ((9 \<le> ord c \<and> ord c \<le> 13) \<or> ord c = 32)"

definition strip :: "string \<Rightarrow> string" where
  "strip s = rev (dropWhile isspace (rev (dropWhile isspace s)))"

fun join :: "string \<Rightarrow> string list \<Rightarrow> string" where
  "join sep [] = []"
| "join sep [x] = x"
| "join sep (x # y # ys) = x @ sep @ join sep (y # ys)"

text \<open>\<^verbatim>\<open>s.partition(sep)\<close>: the part before the first separator, the separator itself
  (empty when there is none) and the part after it.\<close>

definition partition :: "char \<Rightarrow> string \<Rightarrow> string \<times> string \<times> string" where
  "partition sep s =
     (case dropWhile (\<lambda>c. c \<noteq> sep) s of
        [] \<Rightarrow> (s, [], [])
      | c # after \<Rightarrow> (takeWhile (\<lambda>c. c \<noteq> sep) s, [c], after))"

subsection \<open>\<^verbatim>\<open>str(i)\<close> for an integer\<close>

definition digit_char :: "nat \<Rightarrow> char" where
  "digit_char d = char_of (48 + d)"

function str_nat :: "nat \<Rightarrow> string" where
  "str_nat n = (if n < 10 then [digit_char n] else str_nat (n div 10) @ [digit_char (n mod 10)])"
  by pat_completeness auto
termination
  by (relation "measure id") auto

definition str_int :: "int \<Rightarrow> string" where
  "str_int i = (if i < 0 then CHR ''-'' # str_nat (nat (- i)) else str_nat (nat i))"

subsection \<open>\<^verbatim>\<open>int(s)\<close> for a string\<close>

text \<open>
  \<^verbatim>\<open>int\<close> strips white space, reads an optional sign and then decimal digits, where
  single underscores may stand between digits. Since Python 3.11 a literal of more than
  4300 digits is refused (\<^verbatim>\<open>sys.get_int_max_str_digits()\<close>). A \<^verbatim>\<open>ValueError\<close> is the
  value \<open>None\<close>.
\<close>

fun digits_value :: "nat \<Rightarrow> string \<Rightarrow> nat option" where
  "digits_value acc [] = Some acc"
| "digits_value acc (c # cs) =
     (if isdigit c then digits_value (10 * acc + (ord c - 48)) cs
      else if c = CHR ''_'' \<and> cs \<noteq> [] \<and> isdigit (hd cs) then digits_value acc cs
      else None)"

definition int_max_str_digits :: nat where
  "int_max_str_digits = 4300"

definition py_int :: "string \<Rightarrow> int option" where
  "py_int s =
     (let t = strip s;
          negative = (t \<noteq> [] \<and> hd t = CHR ''-'');
          body = (if t \<noteq> [] \<and> (hd t = CHR ''-'' \<or> hd t = CHR ''+'') then tl t else t)
      in if body = [] \<or> \<not> isdigit (hd body) then None
         else if int_max_str_digits < length (filter isdigit body) then None
         else (case digits_value 0 body of
                 None \<Rightarrow> None
               | Some n \<Rightarrow> Some (if negative then - int n else int n)))"

subsection \<open>\<^verbatim>\<open>repr(s)\<close> for a string\<close>

definition hex_digit :: "nat \<Rightarrow> char" where
  "hex_digit d = (if d < 10 then char_of (48 + d) else char_of (87 + d))"

definition repr_char :: "char \<Rightarrow> char \<Rightarrow> string" where
  "repr_char quote c =
     (if c = quote \<or> c = CHR 0x5C then [CHR 0x5C, c]
      else if c = CHR 0x09 then [CHR 0x5C, CHR ''t'']
      else if c = CHR 0x0A then [CHR 0x5C, CHR ''n'']
      else if c = CHR 0x0D then [CHR 0x5C, CHR ''r'']
      else if ord c < 32 \<or> ord c = 127
        then [CHR 0x5C, CHR ''x'', hex_digit (ord c div 16), hex_digit (ord c mod 16)]
      else [c])"

definition py_repr :: "string \<Rightarrow> string" where
  "py_repr s =
     (let quote = (if CHR 0x27 \<in> set s \<and> CHR 0x22 \<notin> set s then CHR 0x22 else CHR 0x27)
      in quote # concat (map (repr_char quote) s) @ [quote])"

section \<open>The argument parser\<close>

text \<open>
  \<^verbatim>\<open>
  parser = argparse.ArgumentParser(description="Testing tmux script")
  parser.add_argument("-c", "--clone_name", required=True, help=...)
  parser.add_argument("-n", "--clone_count", type=int, required=True, help=...)
  parser.add_argument("--greet", action="store_true", required=True, help=...)
  \<close>
  The parser holds four actions: the help action that \<^verbatim>\<open>ArgumentParser\<close> adds by
  default (\<^verbatim>\<open>add_help=True\<close>) and the three of the script, in this order.
\<close>

datatype action = Help | Clone_name | Clone_count | Greet

fun option_strings :: "action \<Rightarrow> string list" where
  "option_strings Help = [''-h'', ''--help'']"
| "option_strings Clone_name = [''-c'', ''--clone_name'']"
| "option_strings Clone_count = [''-n'', ''--clone_count'']"
| "option_strings Greet = [''--greet'']"

text \<open>\<^verbatim>\<open>nargs\<close>: \<open>None\<close> is the default of a storing action (one argument), \<open>Some 0\<close> is
  the value of the help and \<^verbatim>\<open>store_true\<close> actions.\<close>

fun nargs :: "action \<Rightarrow> nat option" where
  "nargs Help = Some 0"
| "nargs Clone_name = None"
| "nargs Clone_count = None"
| "nargs Greet = Some 0"

fun required :: "action \<Rightarrow> bool" where
  "required Help = False"
| "required Clone_name = True"
| "required Clone_count = True"
| "required Greet = True"

definition actions :: "action list" where
  "actions = [Help, Clone_name, Clone_count, Greet]"

definition option_string_actions :: "(string \<times> action) list" where
  \<comment> \<open>\<^verbatim>\<open>parser._option_string_actions\<close>, in insertion order\<close>
  "option_string_actions = concat (map (\<lambda>a. map (\<lambda>s. (s, a)) (option_strings a)) actions)"

definition get_action_name :: "action \<Rightarrow> string" where
  "get_action_name a = join ''/'' (option_strings a)"

definition prog :: string where
  \<comment> \<open>the base name of \<^verbatim>\<open>sys.argv[0]\<close>\<close>
  "prog = ''tester.py''"

text \<open>The ways \<^verbatim>\<open>parse_args\<close> ends without returning: an \<^verbatim>\<open>ArgumentError\<close> raised for an
  action, a direct call of \<^verbatim>\<open>parser.error\<close>, and the help action.\<close>

datatype interrupt = ArgumentError action string | Error string | Print_help

definition str_of_ArgumentError :: "action \<Rightarrow> string \<Rightarrow> string" where
  "str_of_ArgumentError a message = ''argument '' @ get_action_name a @ '': '' @ message"

subsection \<open>Classifying the argument strings\<close>

text \<open>An option tuple is \<^verbatim>\<open>(action, option_string, sep, explicit_arg)\<close>; \<^verbatim>\<open>sep\<close> is
  \<^verbatim>\<open>None\<close>, the empty string or \<^verbatim>\<open>'='\<close>.\<close>

datatype option_tuple = Option_tuple "action option" string "string option" "string option"

fun action_of :: "option_tuple \<Rightarrow> action option" where
  "action_of (Option_tuple a os sep ea) = a"

fun option_string_of :: "option_tuple \<Rightarrow> string" where
  "option_string_of (Option_tuple a os sep ea) = os"

text \<open>\<^verbatim>\<open>_negative_number_matcher = re.compile(r'^-\d+$|^-\d*\.\d+$')\<close>; \<^verbatim>\<open>$\<close> also
  matches before a final line feed. No option string of this parser looks like a
  negative number, so \<^verbatim>\<open>_has_negative_number_optionals\<close> is empty and a negative number
  that matches no option is an argument.\<close>

definition negative_number :: "string \<Rightarrow> bool" where
  "negative_number s =
     (case s of
        [] \<Rightarrow> False
      | c # cs \<Rightarrow>
          c = CHR ''-'' \<and>
          (let body = (if cs \<noteq> [] \<and> last cs = newline then butlast cs else cs);
               fraction = dropWhile isdigit body
           in (body \<noteq> [] \<and> fraction = []) \<or>
              (fraction \<noteq> [] \<and> hd fraction = CHR ''.'' \<and> tl fraction \<noteq> [] \<and>
               list_all isdigit (tl fraction))))"

text \<open>\<^verbatim>\<open>_get_option_tuples\<close> is called on strings of at least two characters that
  start with \<^verbatim>\<open>'-'\<close>; the branch for other strings (\<^verbatim>\<open>unexpected option string\<close>) is
  never reached and yields no tuple here.\<close>

definition get_option_tuples :: "string \<Rightarrow> option_tuple list" where
  "get_option_tuples option_string =
     (case option_string of
        c0 # c1 # rest \<Rightarrow>
          if c0 = CHR ''-'' \<and> c1 = CHR ''-'' then
            (case partition (CHR ''='') option_string of
               (option_prefix, sep, explicit_arg) \<Rightarrow>
                 map (\<lambda>(os, a).
                        if sep = [] then Option_tuple (Some a) os None None
                        else Option_tuple (Some a) os (Some sep) (Some explicit_arg))
                   (filter (\<lambda>(os, a). prefix option_prefix os) option_string_actions))
          else if c0 = CHR ''-'' then
            concat (map (\<lambda>(os, a).
                           if os = [c0, c1] then [Option_tuple (Some a) os (Some []) (Some rest)]
                           else if prefix option_string os then [Option_tuple (Some a) os None None]
                           else [])
                      option_string_actions)
          else []
      | _ \<Rightarrow> [])"

text \<open>\<^verbatim>\<open>_parse_optional\<close>: \<open>Inr None\<close> says the string is a positional argument,
  \<open>Inr (Some t)\<close> that it is an option; an ambiguous abbreviation is an error at once.\<close>

definition parse_optional :: "string \<Rightarrow> interrupt + option_tuple option" where
  "parse_optional arg_string =
     (if arg_string = [] then Inr None
      else if hd arg_string \<noteq> CHR ''-'' then Inr None
      else case map_of option_string_actions arg_string of
        Some a \<Rightarrow> Inr (Some (Option_tuple (Some a) arg_string None None))
      | None \<Rightarrow>
          if length arg_string = 1 then Inr None
          else case partition (CHR ''='') arg_string of
            (option_string, sep, explicit_arg) \<Rightarrow>
              (case (if sep \<noteq> [] then map_of option_string_actions option_string else None) of
                 Some a \<Rightarrow> Inr (Some (Option_tuple (Some a) option_string (Some sep) (Some explicit_arg)))
               | None \<Rightarrow>
                   (let option_tuples = get_option_tuples arg_string in
                    if 1 < length option_tuples then
                      Inl (Error (''ambiguous option: '' @ arg_string @ '' could match '' @
                                  join '', '' (map option_string_of option_tuples)))
                    else if length option_tuples = 1 then Inr (Some (hd option_tuples))
                    else if negative_number arg_string then Inr None
                    else if CHR '' '' \<in> set arg_string then Inr None
                    else Inr (Some (Option_tuple None arg_string None None)))))"

text \<open>The pattern of the command line: \<open>Opt\<close> for an option (\<^verbatim>\<open>'O'\<close>, with its tuple), \<open>Arg\<close> for an
  argument (\<^verbatim>\<open>'A'\<close>), \<open>Dashes\<close> for \<^verbatim>\<open>--\<close> (\<^verbatim>\<open>'-'\<close>), after which every string is an argument.\<close>

datatype pattern = Opt option_tuple | Arg | Dashes

fun arg_strings_pattern :: "string list \<Rightarrow> interrupt + (pattern \<times> string) list" where
  "arg_strings_pattern [] = Inr []"
| "arg_strings_pattern (arg_string # rest) =
     (if arg_string = ''--'' then Inr ((Dashes, arg_string) # map (\<lambda>s. (Arg, s)) rest)
      else case parse_optional arg_string of
        Inl e \<Rightarrow> Inl e
      | Inr option_tuple \<Rightarrow>
          (case arg_strings_pattern rest of
             Inl e \<Rightarrow> Inl e
           | Inr parts \<Rightarrow>
               Inr (((case option_tuple of None \<Rightarrow> Arg | Some t \<Rightarrow> Opt t), arg_string) # parts)))"

subsection \<open>Consuming options\<close>

text \<open>\<^verbatim>\<open>_match_argument\<close> for an option: the pattern \<^verbatim>\<open>(A)\<close> of an action with one
  argument must match the strings that follow, the pattern \<^verbatim>\<open>()\<close> of a flag always
  matches. The result is the number of strings matched.\<close>

fun is_A :: "pattern \<times> string \<Rightarrow> bool" where
  "is_A (Arg, s) = True"
| "is_A (p, s) = False"

definition match_argument :: "action \<Rightarrow> (pattern \<times> string) list \<Rightarrow> interrupt + nat" where
  "match_argument a following =
     (case nargs a of
        None \<Rightarrow> (if following \<noteq> [] \<and> is_A (hd following) then Inr 1
                 else Inl (ArgumentError a ''expected one argument''))
      | Some n \<Rightarrow> Inr 0)"

text \<open>The namespace starts with the defaults \<^verbatim>\<open>clone_name=None\<close>, \<^verbatim>\<open>clone_count=None\<close>,
  \<^verbatim>\<open>greet=False\<close>.\<close>

record namespace =
  clone_name :: "string option"
  clone_count :: "int option"
  greet :: bool

record parse_state =
  ns :: namespace
  seen_actions :: "action list"
  extras :: "string list"

text \<open>
  \<^verbatim>\<open>take_action\<close>: the action is recorded as seen, its argument strings are converted
  (\<^verbatim>\<open>_get_values\<close>, where \<^verbatim>\<open>int\<close> may fail) and the action is called. A storing action
  always receives exactly one string from \<^verbatim>\<open>_match_argument\<close>; the last equations stand for
  calls that never happen.
\<close>

fun take_action :: "action \<Rightarrow> string list \<Rightarrow> parse_state \<Rightarrow> interrupt + parse_state" where
  "take_action Help argument_strings st = Inl Print_help"
| "take_action Greet argument_strings st =
     Inr (st\<lparr>seen_actions := seen_actions st @ [Greet], ns := (ns st)\<lparr>greet := True\<rparr>\<rparr>)"
| "take_action Clone_name [s] st =
     Inr (st\<lparr>seen_actions := seen_actions st @ [Clone_name], ns := (ns st)\<lparr>clone_name := Some s\<rparr>\<rparr>)"
| "take_action Clone_count [s] st =
     (case py_int s of
        None \<Rightarrow> Inl (ArgumentError Clone_count (''invalid int value: '' @ py_repr s))
      | Some n \<Rightarrow>
          Inr (st\<lparr>seen_actions := seen_actions st @ [Clone_count],
                 ns := (ns st)\<lparr>clone_count := Some n\<rparr>\<rparr>))"
| "take_action a argument_strings st = Inl (ArgumentError a ''expected one argument'')"

fun take_actions ::
  "(action \<times> string list \<times> string) list \<Rightarrow> parse_state \<Rightarrow> interrupt + parse_state" where
  "take_actions [] st = Inr st"
| "take_actions ((a, args, option_string) # action_tuples) st =
     (case take_action a args st of
        Inl e \<Rightarrow> Inl e
      | Inr st' \<Rightarrow> take_actions action_tuples st')"

text \<open>
  The \<^verbatim>\<open>while True\<close> loop of \<^verbatim>\<open>consume_optional\<close> for an option whose action is known.
  It returns the action tuples to take, the strings it adds to \<^verbatim>\<open>extras\<close> and the number
  of following strings the option consumes. A single-dash flag followed by more
  characters (\<^verbatim>\<open>-hc\<close>) is split into further single-dash options, one per iteration.
\<close>

function consume_optional ::
  "action \<Rightarrow> string \<Rightarrow> string option \<Rightarrow> string option \<Rightarrow> (pattern \<times> string) list \<Rightarrow>
   (action \<times> string list \<times> string) list \<Rightarrow>
   interrupt + ((action \<times> string list \<times> string) list \<times> string list \<times> nat)" where
  "consume_optional a option_string sep explicit_arg following action_tuples =
     (case explicit_arg of
        Some e \<Rightarrow>
          (case match_argument a [(Arg, e)] of
             Inl err \<Rightarrow> Inl err
           | Inr arg_count \<Rightarrow>
               if arg_count = 0 \<and> option_string ! 1 \<noteq> CHR ''-'' \<and> e \<noteq> [] then
                 if (sep \<noteq> None \<and> sep \<noteq> Some []) \<or> hd e = CHR ''-'' then
                   Inl (ArgumentError a (''ignored explicit argument '' @ py_repr e))
                 else
                   (case map_of option_string_actions [hd option_string, hd e] of
                      Some a' \<Rightarrow>
                        if tl e = [] then
                          consume_optional a' [hd option_string, hd e] None None following
                            (action_tuples @ [(a, [], option_string)])
                        else if hd (tl e) = CHR ''='' then
                          consume_optional a' [hd option_string, hd e] (Some ''='')
                            (Some (tl (tl e))) following (action_tuples @ [(a, [], option_string)])
                        else
                          consume_optional a' [hd option_string, hd e] (Some [])
                            (Some (tl e)) following (action_tuples @ [(a, [], option_string)])
                    | None \<Rightarrow>
                        Inr (action_tuples @ [(a, [], option_string)], [hd option_string # e], 0))
               else if arg_count = 1 then Inr (action_tuples @ [(a, [e], option_string)], [], 0)
               else Inl (ArgumentError a (''ignored explicit argument '' @ py_repr e)))
      | None \<Rightarrow>
          (case match_argument a following of
             Inl err \<Rightarrow> Inl err
           | Inr arg_count \<Rightarrow>
               Inr (action_tuples @ [(a, map snd (take arg_count following), option_string)],
                    [], arg_count)))"
  by pat_completeness auto
termination
  by (relation "measure (\<lambda>(a, os, sep, explicit_arg, following, tuples).
                  case explicit_arg of None \<Rightarrow> 0 | Some e \<Rightarrow> Suc (length e))")
     (auto split: option.splits)

text \<open>The main loop of \<^verbatim>\<open>_parse_known_args\<close>. The parser has no positional arguments,
  so every string that no option consumes goes to \<^verbatim>\<open>extras\<close>.\<close>

function consume ::
  "(pattern \<times> string) list \<Rightarrow> parse_state \<Rightarrow> interrupt + parse_state" where
  "consume [] st = Inr st"
| "consume ((Arg, arg_string) # rest) st = consume rest (st\<lparr>extras := extras st @ [arg_string]\<rparr>)"
| "consume ((Dashes, arg_string) # rest) st = consume rest (st\<lparr>extras := extras st @ [arg_string]\<rparr>)"
| "consume ((Opt (Option_tuple None option_string sep explicit_arg), arg_string) # rest) st =
     consume rest (st\<lparr>extras := extras st @ [arg_string]\<rparr>)"
| "consume ((Opt (Option_tuple (Some a) option_string sep explicit_arg), arg_string) # rest) st =
     (case consume_optional a option_string sep explicit_arg rest [] of
        Inl e \<Rightarrow> Inl e
      | Inr (action_tuples, more_extras, arg_count) \<Rightarrow>
          (case take_actions action_tuples (st\<lparr>extras := extras st @ more_extras\<rparr>) of
             Inl e \<Rightarrow> Inl e
           | Inr st' \<Rightarrow> consume (drop arg_count rest) st'))"
  by pat_completeness auto
termination
  by (relation "measure (\<lambda>(parts, st). length parts)") auto

definition initial_state :: parse_state where
  "initial_state =
     \<lparr>ns = \<lparr>clone_name = None, clone_count = None, greet = False\<rparr>,
      seen_actions = [], extras = []\<rparr>"

definition parse_known_args :: "string list \<Rightarrow> interrupt + namespace \<times> string list" where
  "parse_known_args arg_strings =
     (case arg_strings_pattern arg_strings of
        Inl e \<Rightarrow> Inl e
      | Inr parts \<Rightarrow>
          (case consume parts initial_state of
             Inl e \<Rightarrow> Inl e
           | Inr st \<Rightarrow>
               (let required_actions =
                      filter (\<lambda>a. a \<notin> set (seen_actions st) \<and> required a) actions
                in if required_actions \<noteq> [] then
                     Inl (Error (''the following arguments are required: '' @
                                 join '', '' (map get_action_name required_actions)))
                   else Inr (ns st, extras st))))"

subsection \<open>Exits and \<^verbatim>\<open>parse_args\<close>\<close>

text \<open>
  What the process can change: the two output streams and everything else outside the
  process (files, network, environment), which is kept as an opaque component. A
  \<^verbatim>\<open>SystemExit\<close> carries the exit status.
\<close>

record 'e world =
  stdout :: string
  stderr :: string
  outside :: 'e

datatype ('a, 'e) result = SystemExit int "'e world" | Return 'a "'e world"

text \<open>The usage and help messages of the default formatter, as it lays them out when
  the terminal is at least 80 columns wide or the output is not a terminal.\<close>

definition format_usage :: string where
  "format_usage = ''usage: '' @ prog @ '' [-h] -c CLONE_NAME -n CLONE_COUNT --greet'' @ [newline]"

definition format_help :: string where
  "format_help =
     format_usage @
     concat (map (\<lambda>l. l @ [newline])
       [[],
        ''Testing tmux script'',
        [],
        ''options:'',
        ''  -h, --help            show this help message and exit'',
        ''  -c CLONE_NAME, --clone_name CLONE_NAME'',
        ''                        The name of the clone to greet.'',
        ''  -n CLONE_COUNT, --clone_count CLONE_COUNT'',
        ''                        Number of clones to greet'',
        ''  --greet               Include a greeting (default: False).''])"

definition error :: "string \<Rightarrow> 'e world \<Rightarrow> ('a, 'e) result" where
  \<comment> \<open>\<^verbatim>\<open>parser.error\<close>: the usage and the message on standard error, exit status 2\<close>
  "error message w =
     SystemExit 2 (w\<lparr>stderr := stderr w @ format_usage @ prog @ '': error: '' @ message @ [newline]\<rparr>)"

definition print_help :: "'e world \<Rightarrow> 'e world" where
  "print_help w = w\<lparr>stdout := stdout w @ format_help\<rparr>"

definition parse_args :: "string list \<Rightarrow> 'e world \<Rightarrow> (namespace, 'e) result" where
  "parse_args argv w =
     (case parse_known_args argv of
        Inl (ArgumentError a message) \<Rightarrow> error (str_of_ArgumentError a message) w
      | Inl (Error message) \<Rightarrow> error message w
      | Inl Print_help \<Rightarrow> SystemExit 0 (print_help w)
      | Inr (args, argv') \<Rightarrow>
          if argv' \<noteq> [] then error (''unrecognized arguments: '' @ join '' '' argv') w
          else Return args w)"

section \<open>The script\<close>

text \<open>
  \<^verbatim>\<open>
  args = parser.parse_args()
  for i in range(args.clone_count):
      print(f"<alien emoji> says: Hello, {args.clone_name}{i}!")
  \<close>
\<close>

definition print :: "string \<Rightarrow> 'e world \<Rightarrow> 'e world" where
  "print s w = w\<lparr>stdout := stdout w @ s @ [newline]\<rparr>"

text \<open>\<^verbatim>\<open>for i in range(stop): body\<close>, started at \<open>i = 0\<close>.\<close>

function for_range :: "int \<Rightarrow> int \<Rightarrow> (int \<Rightarrow> 's \<Rightarrow> 's) \<Rightarrow> 's \<Rightarrow> 's" where
  "for_range i stop body s = (if i < stop then for_range (i + 1) stop body (body i s) else s)"
  by pat_completeness auto
termination
  by (relation "measure (\<lambda>(i, stop, body, s). nat (stop - i))") auto

definition emoji :: string where
  \<comment> \<open>U+1F47D in UTF-8\<close>
  "emoji = [CHR 0xF0, CHR 0x9F, CHR 0x91, CHR 0xBD]"

definition format_str :: "string option \<Rightarrow> string" where
  \<comment> \<open>how an f-string renders \<^verbatim>\<open>args.clone_name\<close>, a string or \<^verbatim>\<open>None\<close>\<close>
  "format_str v = (case v of None \<Rightarrow> ''None'' | Some s \<Rightarrow> s)"

definition greeting :: "string option \<Rightarrow> int \<Rightarrow> string" where
  "greeting name i = emoji @ '' says: Hello, '' @ format_str name @ str_int i @ ''!''"

text \<open>The script ends with status 0 after the loop. \<^verbatim>\<open>range(None)\<close> would raise a
  \<^verbatim>\<open>TypeError\<close> (a traceback on standard error, status 1).\<close>

definition traceback :: string where
  "traceback =
     ''Traceback (most recent call last):'' @ [newline] @
     ''  File '' @ [CHR 0x22] @ prog @ [CHR 0x22] @ '', line 15, in <module>'' @ [newline] @
     ''    for i in range(args.clone_count):'' @ [newline] @
     ''TypeError: '' @ [CHR 0x27] @ ''NoneType'' @ [CHR 0x27] @
     '' object cannot be interpreted as an integer'' @ [newline]"

definition greet_clones :: "namespace \<Rightarrow> 'e world \<Rightarrow> int \<times> 'e world" where
  "greet_clones args w =
     (case clone_count args of
        None \<Rightarrow> (1, w\<lparr>stderr := stderr w @ traceback\<rparr>)
      | Some n \<Rightarrow> (0, for_range 0 n (\<lambda>i. print (greeting (clone_name args) i)) w))"

definition main :: "string list \<Rightarrow> 'e world \<Rightarrow> int \<times> 'e world" where
  "main argv w =
     (case parse_args argv w of
        SystemExit status w' \<Rightarrow> (status, w')
      | Return args w' \<Rightarrow> greet_clones args w')"

section \<open>Notions used to state the properties\<close>

text \<open>The physical lines of a stream: the runs of characters that a line feed ends, and
  the run after the last line feed when it is not empty.\<close>

fun split_lines :: "string \<Rightarrow> string \<Rightarrow> string list" where
  "split_lines line [] = (if line = [] then [] else [line])"
| "split_lines line (c # cs) =
     (if c = newline then line # split_lines [] cs else split_lines (line @ [c]) cs)"

definition lines_of :: "string \<Rightarrow> string list" where
  "lines_of s = split_lines [] s"

definition empty_world :: "unit world" where
  "empty_world = \<lparr>stdout = [], stderr = [], outside = ()\<rparr>"

text \<open>An argument string names an option when it starts like the option or like an
  abbreviation that only this option has. A command line mentions an option when one of
  its strings names it.\<close>

fun names :: "action \<Rightarrow> string \<Rightarrow> bool" where
  "names Help s = (prefix ''-h'' s \<or> prefix ''--h'' s)"
| "names Clone_name s = (prefix ''-c'' s \<or> prefix ''--clone_n'' s)"
| "names Clone_count s = (prefix ''-n'' s \<or> prefix ''--clone_c'' s)"
| "names Greet s = prefix ''--g'' s"

definition mentions :: "action \<Rightarrow> string list \<Rightarrow> bool" where
  "mentions a argv = list_ex (names a) argv"

text \<open>The count option, written \<^verbatim>\<open>-n\<close> or \<^verbatim>\<open>--clone_count\<close> before any \<^verbatim>\<open>--\<close>, is followed
  by a string that \<^verbatim>\<open>int\<close> refuses.\<close>

fun unparseable_count :: "string list \<Rightarrow> bool" where
  "unparseable_count (s # v # rest) =
     (s \<noteq> ''--'' \<and>
      (((s = ''-n'' \<or> s = ''--clone_count'') \<and> py_int v = None) \<or> unparseable_count (v # rest)))"
| "unparseable_count argv = False"

text \<open>A string that \<^verbatim>\<open>argparse\<close> reads as an argument, not as an option: the empty
  string, a string that does not start with \<^verbatim>\<open>-\<close>, the single \<^verbatim>\<open>-\<close>, and, when it matches
  no option, a negative number or a string with a space.\<close>

definition positional :: "string \<Rightarrow> bool" where
  "positional s = (parse_optional s = Inr None)"

text \<open>The messages of \<^verbatim>\<open>parser.error\<close> that this parser can produce.\<close>

definition usage_message :: "string \<Rightarrow> bool" where
  "usage_message m =
     (prefix ''ambiguous option: '' m \<or>
      prefix ''the following arguments are required: '' m \<or>
      prefix ''unrecognized arguments: '' m \<or>
      (\<exists>a reason. m = str_of_ArgumentError a reason \<and>
         (reason = ''expected one argument'' \<or>
          prefix ''ignored explicit argument '' reason \<or>
          prefix ''invalid int value: '' reason)))"

section \<open>Invariants of the parser\<close>

text \<open>An option tuple is sound for the string it was read from when the string names
  the action and the option string belongs to the action.\<close>

fun tuple_ok :: "string \<Rightarrow> option_tuple \<Rightarrow> bool" where
  "tuple_ok s (Option_tuple None os sep ea) = True"
| "tuple_ok s (Option_tuple (Some a) os sep ea) = (names a s \<and> (os, a) \<in> set option_string_actions)"

definition parts_ok :: "(pattern \<times> string) list \<Rightarrow> bool" where
  "parts_ok parts = list_all (\<lambda>(p, s). case p of Opt t \<Rightarrow> tuple_ok s t | _ \<Rightarrow> True) parts"

text \<open>While the loop runs, the help action has not been taken (it exits), and an
  action that was seen has set its attribute of the namespace.\<close>

definition state_ok :: "parse_state \<Rightarrow> bool" where
  "state_ok st =
     (Help \<notin> set (seen_actions st) \<and>
      (Clone_name \<in> set (seen_actions st) \<longrightarrow> clone_name (ns st) \<noteq> None) \<and>
      (Clone_count \<in> set (seen_actions st) \<longrightarrow> clone_count (ns st) \<noteq> None) \<and>
      (Greet \<in> set (seen_actions st) \<longrightarrow> greet (ns st)))"

text \<open>The errors that the loop and the classification raise.\<close>

fun known_error :: "interrupt \<Rightarrow> bool" where
  "known_error (ArgumentError a message) =
     (message = ''expected one argument'' \<or> prefix ''ignored explicit argument '' message \<or>
      prefix ''invalid int value: '' message)"
| "known_error (Error message) =
     (prefix ''ambiguous option: '' message \<or>
      prefix ''the following arguments are required: '' message)"
| "known_error Print_help = False"

text \<open>A pattern in which the count option, without a value of its own, stands before
  something other than an argument that \<^verbatim>\<open>int\<close> accepts.\<close>

fun is_count_option :: "pattern \<Rightarrow> bool" where
  "is_count_option (Opt (Option_tuple (Some Clone_count) os None None)) = True"
| "is_count_option p = False"

fun bad_count :: "(pattern \<times> string) list \<Rightarrow> bool" where
  "bad_count ((p, s) # (q, v) # rest) =
     ((is_count_option p \<and> (q = Arg \<longrightarrow> py_int v = None)) \<or> bad_count ((q, v) # rest))"
| "bad_count parts = False"

section \<open>The loop\<close>

declare for_range.simps [simp del]
declare consume_optional.simps [simp del]
declare str_nat.simps [simp del]

lemma for_range_fold: "for_range i n body s = fold body [i..n - 1] s"
proof (induction i n body s rule: for_range.induct)
  case (1 i stop body s)
  show ?case
  proof (cases "i < stop")
    case True
    then have "[i..stop - 1] = i # [i + 1..stop - 1]"
      by (simp add: upto_rec1)
    with True 1 show ?thesis
      by (subst for_range.simps) simp
  next
    case False
    then show ?thesis
      by (subst for_range.simps) simp
  qed
qed

lemma fold_print:
  "fold (\<lambda>i. print (g i)) xs w =
     w\<lparr>stdout := stdout w @ concat (map (\<lambda>i. g i @ [newline]) xs)\<rparr>"
  by (induction xs arbitrary: w) (simp_all add: print_def)

lemma fold_counted:
  "fold (\<lambda>i (k, s). (Suc k, body i s)) xs (k, s) = (k + length xs, fold body xs s)"
  by (induction xs arbitrary: k s) simp_all

lemma greet_clones_Some:
  "clone_count args = Some n \<Longrightarrow>
   greet_clones args w =
     (0, w\<lparr>stdout := stdout w @
                concat (map (\<lambda>i. greeting (clone_name args) i @ [newline]) [0..n - 1])\<rparr>)"
  by (simp add: greet_clones_def for_range_fold fold_print)

text \<open>
  Claim C8. For every integer \<open>n\<close>, negative ones included, the loop
  \<^verbatim>\<open>for i in range(n)\<close> ends after \<open>max n 0\<close> iterations: the loop that also counts its
  iterations ends with that count and with the state the plain loop ends with. The
  loop of the script is this loop with the \<^verbatim>\<open>print\<close> call as its body. Every function
  of the model is total, so the program runs to completion.
\<close>

theorem C8_loop_iterations:
  "for_range 0 n (\<lambda>i (k, s). (Suc k, body i s)) (0, s) = (nat (max n 0), for_range 0 n body s)
   \<and> greet_clones \<lparr>clone_name = name, clone_count = Some n, greet = g\<rparr> w =
       (0, for_range 0 n (\<lambda>i. print (greeting name i)) w)"
  by (simp add: for_range_fold fold_counted greet_clones_def)

text \<open>
  Claim C6. The command line \<^verbatim>\<open>-c Bob -n 3 --greet\<close> (also with the long option names)
  ends with status 0 and writes exactly the three greetings of Bob0, Bob1 and Bob2, in
  this order, each on a line of its own; nothing is written to standard error.
\<close>

theorem C6_bob_three:
  "main [''-c'', ''Bob'', ''-n'', ''3'', ''--greet''] empty_world =
     (0, \<lparr>stdout = emoji @ '' says: Hello, Bob0!'' @ [newline] @
                   emoji @ '' says: Hello, Bob1!'' @ [newline] @
                   emoji @ '' says: Hello, Bob2!'' @ [newline],
          stderr = [], outside = ()\<rparr>)
   \<and> main [''--clone_name'', ''Bob'', ''--clone_count'', ''3'', ''--greet''] empty_world =
       main [''-c'', ''Bob'', ''-n'', ''3'', ''--greet''] empty_world
   \<and> lines_of (stdout (snd (main [''-c'', ''Bob'', ''-n'', ''3'', ''--greet''] empty_world))) =
       [emoji @ '' says: Hello, Bob0!'', emoji @ '' says: Hello, Bob1!'',
        emoji @ '' says: Hello, Bob2!'']"
  by code_simp

section \<open>What the parser reads\<close>

lemma option_string_actions_eq:
  "option_string_actions =
     [(''-h'', Help), (''--help'', Help), (''-c'', Clone_name), (''--clone_name'', Clone_name),
      (''-n'', Clone_count), (''--clone_count'', Clone_count), (''--greet'', Greet)]"
  by (simp add: option_string_actions_def actions_def)

lemma names_prefix: "names a p \<Longrightarrow> prefix p s \<Longrightarrow> names a s"
  by (cases a) (auto intro: prefix_order.trans)

lemma table_names: "(os, a) \<in> set option_string_actions \<Longrightarrow> names a os"
  by (auto simp: option_string_actions_eq)

lemma map_of_table: "map_of option_string_actions s = Some a \<Longrightarrow> (s, a) \<in> set option_string_actions"
  by (rule map_of_SomeD)

lemma filter_singleton:
  assumes "filter (\<lambda>(os, a). prefix p os) option_string_actions = [(os, a)]"
  shows "names a p \<and> (os, a) \<in> set option_string_actions"
proof -
  have "(os, a) \<in> set (filter (\<lambda>(os, a). prefix p os) option_string_actions)"
    using assms by simp
  then have mem: "(os, a) \<in> set option_string_actions" and "prefix p os"
    by auto
  with mem assms have "names a p"
    by (auto simp: option_string_actions_eq prefix_Cons)
  with mem show ?thesis by simp
qed


lemma partition_prefix: "partition c s = (p, sep, ea) \<Longrightarrow> prefix p s"
proof -
  have "prefix (takeWhile (\<lambda>x. x \<noteq> c) s) s"
    by (metis prefixI takeWhile_dropWhile_id)
  moreover assume "partition c s = (p, sep, ea)"
  ultimately show ?thesis
    by (auto simp: partition_def split: list.splits)
qed

lemma get_option_tuples_ok:
  assumes "get_option_tuples s = [t]"
  shows "tuple_ok s t"
proof (cases s)
  case Nil
  with assms show ?thesis by (simp add: get_option_tuples_def)
next
  case (Cons c0 s')
  show ?thesis
  proof (cases s')
    case Nil
    with Cons assms show ?thesis by (simp add: get_option_tuples_def)
  next
    case (Cons c1 rest)
    note s = \<open>s = c0 # s'\<close> \<open>s' = c1 # rest\<close>
    show ?thesis
    proof (cases "c0 = CHR ''-'' \<and> c1 = CHR ''-''")
      case True
      obtain p sep ea where part: "partition (CHR ''='') s = (p, sep, ea)"
        by (cases "partition (CHR ''='') s") auto
      from assms True s part obtain os a where
        f: "filter (\<lambda>(os, a). prefix p os) option_string_actions = [(os, a)]" and
        t: "t = (if sep = [] then Option_tuple (Some a) os None None
                 else Option_tuple (Some a) os (Some sep) (Some ea))"
        by (auto simp: get_option_tuples_def map_eq_Cons_conv)
      from filter_singleton [OF f] partition_prefix [OF part]
      have "names a s" and "(os, a) \<in> set option_string_actions"
        by (auto intro: names_prefix)
      with t show ?thesis by simp
    next
      case False
      with assms s have c0: "c0 = CHR ''-''" and c1: "c1 \<noteq> CHR ''-''"
        by (auto simp: get_option_tuples_def split: if_splits)
      from assms have "t \<in> set (get_option_tuples s)" by simp
      with s c0 c1 obtain os a where
        mem: "(os, a) \<in> set option_string_actions" and
        t: "t \<in> set (if os = [c0, c1] then [Option_tuple (Some a) os (Some []) (Some rest)]
                      else if prefix s os then [Option_tuple (Some a) os None None] else [])"
        by (auto simp: get_option_tuples_def)
      show ?thesis
      proof (cases "os = [c0, c1]")
        case True
        with s have "prefix os s" by simp
        with mem have "names a s" by (auto intro: names_prefix table_names)
        with True t mem show ?thesis by simp
      next
        case False
        with t have "prefix s os" by (auto split: if_splits)
        with mem s c1 False have False
          by (auto simp: option_string_actions_eq)
        then show ?thesis ..
      qed
    qed
  qed
qed

lemma parse_optional_ok:
  assumes "parse_optional s = Inr (Some t)"
  shows "tuple_ok s t"
proof -
  obtain p sep ea where part: "partition (CHR ''='') s = (p, sep, ea)"
    by (cases "partition (CHR ''='') s") auto
  have exact: "tuple_ok s (Option_tuple (Some a) s x y)"
    if "map_of option_string_actions s = Some a" for a x y
    using that by (simp add: map_of_table table_names)
  have eq: "tuple_ok s (Option_tuple (Some a) p x y)"
    if "map_of option_string_actions p = Some a" for a x y
    using that partition_prefix [OF part]
    by (auto dest!: map_of_table intro: names_prefix table_names)
  have abbrev: "tuple_ok s (hd (get_option_tuples s))" if "length (get_option_tuples s) = 1"
  proof -
    from that have "get_option_tuples s = [hd (get_option_tuples s)]"
      by (cases "get_option_tuples s") auto
    then show ?thesis by (rule get_option_tuples_ok)
  qed
  have none: "tuple_ok s (Option_tuple None x y z)" for x y z
    by simp
  from assms part show ?thesis
    by (auto simp: parse_optional_def Let_def exact eq abbrev none simp del: tuple_ok.simps
          split: if_splits option.splits)
qed


subsection \<open>The pattern\<close>

lemma pattern_strings: "arg_strings_pattern argv = Inr parts \<Longrightarrow> map snd parts = argv"
  by (induction argv arbitrary: parts) (auto split: if_splits sum.splits simp: comp_def)

lemma pattern_ok: "arg_strings_pattern argv = Inr parts \<Longrightarrow> parts_ok parts"
proof (induction argv arbitrary: parts)
  case Nil
  then show ?case by (simp add: parts_ok_def)
next
  case (Cons s argv)
  show ?case
  proof (cases "s = ''--''")
    case True
    with Cons.prems show ?thesis
      by (auto simp: parts_ok_def list_all_iff)
  next
    case False
    with Cons.prems obtain ot parts' where
      po: "parse_optional s = Inr ot" and
      rest: "arg_strings_pattern argv = Inr parts'" and
      parts: "parts = ((case ot of None \<Rightarrow> Arg | Some t \<Rightarrow> Opt t), s) # parts'"
      by (auto split: sum.splits)
    from po have "case ot of None \<Rightarrow> True | Some t \<Rightarrow> tuple_ok s t"
      by (auto split: option.splits dest: parse_optional_ok)
    with Cons.IH [OF rest] parts show ?thesis
      by (auto simp: parts_ok_def split: option.splits)
  qed
qed

lemma parse_optional_error: "parse_optional s = Inl e \<Longrightarrow> known_error e"
  by (auto simp: parse_optional_def Let_def split: if_splits option.splits prod.splits)

lemma pattern_error: "arg_strings_pattern argv = Inl e \<Longrightarrow> known_error e"
  by (induction argv) (auto split: if_splits sum.splits dest: parse_optional_error)


subsection \<open>One option\<close>

lemma consume_optional_extends:
  "consume_optional a os sep ea following acc = Inr (tuples, ex, k) \<Longrightarrow>
   \<exists>ys. tuples = acc @ ys"
proof (induction a os sep ea following acc rule: consume_optional.induct)
  case (1 a os sep ea following acc)
  from "1.prems" show ?case
    apply (subst (asm) consume_optional.simps)
    apply (auto split: option.splits sum.splits if_splits dest!: "1.IH" [rotated -1])
    done
qed

lemma consume_optional_error:
  "consume_optional a os sep ea following acc = Inl e \<Longrightarrow> known_error e"
proof (induction a os sep ea following acc rule: consume_optional.induct)
  case (1 a os sep ea following acc)
  from "1.prems" show ?case
    apply (subst (asm) consume_optional.simps)
    apply (auto simp: match_argument_def split: option.splits sum.splits if_splits
                dest!: "1.IH" [rotated -1])
    done
qed

lemma consume_optional_Help:
  assumes "consume_optional Help os sep ea following acc = Inr (tuples, ex, k)"
  shows "\<exists>ys. tuples = acc @ (Help, [], os) # ys"
  using assms
  apply (subst (asm) consume_optional.simps)
  apply (auto simp: match_argument_def split: option.splits sum.splits if_splits
              dest!: consume_optional_extends)
  done

lemma consume_optional_store:
  assumes "consume_optional a os sep ea following acc = Inr (tuples, ex, k)"
    and "nargs a = None"
  shows "\<exists>v. tuples = acc @ [(a, [v], os)] \<and> ex = [] \<and>
             (ea = Some v \<and> k = 0 \<or>
              ea = None \<and> k = 1 \<and> (\<exists>rest. following = (Arg, v) # rest))"
  using assms
  apply (subst (asm) consume_optional.simps)
  apply (auto simp: match_argument_def split: option.splits sum.splits if_splits)
  apply (cases following; auto elim: is_A.elims)+
  done

lemma consume_optional_Greet:
  assumes "consume_optional Greet ''--greet'' sep ea following acc = Inr (tuples, ex, k)"
  shows "tuples = acc @ [(Greet, [], ''--greet'')] \<and> ex = [] \<and> k = 0"
  using assms
  apply (subst (asm) consume_optional.simps)
  apply (auto simp: match_argument_def split: option.splits sum.splits if_splits)
  done


subsection \<open>Taking actions\<close>

lemma take_action_Inr:
  assumes "take_action a args st = Inr st'"
  shows "a \<noteq> Help \<and> seen_actions st' = seen_actions st @ [a] \<and> extras st' = extras st \<and>
         (state_ok st \<longrightarrow> state_ok st')"
  using assms
  by (cases "(a, args, st)" rule: take_action.cases)
     (auto simp: state_ok_def split: option.splits)

lemma take_action_Inl:
  assumes "take_action a args st = Inl e"
  shows "(e = Print_help \<and> a = Help) \<or> known_error e"
  using assms
  by (cases "(a, args, st)" rule: take_action.cases) (auto split: option.splits)

lemma take_actions_single: "take_actions [(a, args, os)] st = take_action a args st"
  by (simp split: sum.splits)

lemma take_actions_Help: "take_actions ((Help, args, os) # ys) st = Inl Print_help"
  by simp

lemma take_actions_Inl:
  "take_actions tuples st = Inl e \<Longrightarrow>
   (e = Print_help \<and> Help \<in> fst ` set tuples) \<or> known_error e"
proof (induction tuples arbitrary: st)
  case Nil
  then show ?case by simp
next
  case (Cons t tuples)
  obtain a args os where t: "t = (a, args, os)" by (cases t) auto
  show ?case
  proof (cases "take_action a args st")
    case (Inl e')
    with Cons.prems t have "e' = e" by simp
    with Inl take_action_Inl [of a args st e] t show ?thesis by auto
  next
    case (Inr st')
    with Cons.prems t have "take_actions tuples st' = Inl e" by simp
    from Cons.IH [OF this] show ?thesis by auto
  qed
qed


subsection \<open>The main loop\<close>

lemma consume_skip:
  assumes "\<And>a os sep ea. p \<noteq> Opt (Option_tuple (Some a) os sep ea)"
  shows "consume ((p, s) # rest) st = consume rest (st\<lparr>extras := extras st @ [s]\<rparr>)"
proof (cases p)
  case (Opt t)
  with assms show ?thesis
    by (cases t; cases "action_of t") auto
qed simp_all

lemma state_ok_extras [simp]: "state_ok (st\<lparr>extras := xs\<rparr>) = state_ok st"
  by (simp add: state_ok_def)

lemma consume_optional_single:
  assumes co: "consume_optional a os sep ea rest [] = Inr (tuples, ex, k)"
    and ok: "(os, a) \<in> set option_string_actions"
    and a: "a \<noteq> Help"
  shows "\<exists>args. tuples = [(a, args, os)] \<and> ex = [] \<and>
           (nargs a = None \<and>
              ((\<exists>v. ea = Some v \<and> args = [v] \<and> k = 0) \<or>
               (\<exists>v rest'. ea = None \<and> rest = (Arg, v) # rest' \<and> args = [v] \<and> k = 1))
            \<or> a = Greet \<and> args = [] \<and> k = 0)"
proof (cases "nargs a")
  case None
  from consume_optional_store [OF co None] None show ?thesis by auto
next
  case (Some n)
  with a have g: "a = Greet" by (cases a) auto
  with ok have "os = ''--greet''"
    by (auto simp: option_string_actions_eq)
  with co g show ?thesis
    by (auto dest!: consume_optional_Greet)
qed

lemma consume_step_Inr:
  assumes run: "consume ((Opt (Option_tuple (Some a) os sep ea), s) # rest) st = Inr st'"
    and ok: "(os, a) \<in> set option_string_actions"
  shows "\<exists>args st'' k.
           a \<noteq> Help \<and> take_action a args st = Inr st'' \<and>
           consume (drop k rest) st'' = Inr st' \<and>
           (nargs a = None \<and>
              ((\<exists>v. ea = Some v \<and> args = [v] \<and> k = 0) \<or>
               (\<exists>v rest'. ea = None \<and> rest = (Arg, v) # rest' \<and> args = [v] \<and> k = 1))
            \<or> a = Greet \<and> args = [] \<and> k = 0)"
proof -
  from run obtain tuples ex k st'' where
    co: "consume_optional a os sep ea rest [] = Inr (tuples, ex, k)" and
    ta: "take_actions tuples (st\<lparr>extras := extras st @ ex\<rparr>) = Inr st''" and
    rec: "consume (drop k rest) st'' = Inr st'"
    by (auto split: sum.splits)
  have a: "a \<noteq> Help"
  proof
    assume "a = Help"
    with co ta show False
      by (auto dest!: consume_optional_Help)
  qed
  from consume_optional_single [OF co ok a] obtain args where
    tuples: "tuples = [(a, args, os)]" and ex: "ex = []" and
    shape: "nargs a = None \<and>
              ((\<exists>v. ea = Some v \<and> args = [v] \<and> k = 0) \<or>
               (\<exists>v rest'. ea = None \<and> rest = (Arg, v) # rest' \<and> args = [v] \<and> k = 1))
            \<or> a = Greet \<and> args = [] \<and> k = 0"
    by blast
  from ta tuples ex have "take_action a args st = Inr st''"
    by (simp add: take_actions_single del: take_actions.simps)
  with a rec shape show ?thesis by blast
qed

lemma consume_step_Inl:
  assumes run: "consume ((Opt (Option_tuple (Some a) os sep ea), s) # rest) st = Inl e"
    and ok: "(os, a) \<in> set option_string_actions"
  shows "(e = Print_help \<and> a = Help) \<or> known_error e \<or>
         (\<exists>st'' k. consume (drop k rest) st'' = Inl e)"
proof (cases "consume_optional a os sep ea rest []")
  case (Inl e')
  with run have "e' = e" by simp
  with Inl show ?thesis by (auto dest: consume_optional_error)
next
  case (Inr r)
  obtain tuples ex k where r: "r = (tuples, ex, k)" by (cases r) auto
  note co = Inr [unfolded r]
  show ?thesis
  proof (cases "take_actions tuples (st\<lparr>extras := extras st @ ex\<rparr>)")
    case (Inl e')
    with run co have e: "e' = e" by simp
    show ?thesis
    proof (cases "a = Help")
      case True
      with co obtain ys where "tuples = (Help, [], os) # ys"
        by (auto dest!: consume_optional_Help)
      with Inl e True show ?thesis by simp
    next
      case False
      from consume_optional_single [OF co ok False] obtain args where
        "tuples = [(a, args, os)]" by blast
      with Inl e have "take_action a args (st\<lparr>extras := extras st @ ex\<rparr>) = Inl e"
        by (simp add: take_actions_single del: take_actions.simps)
      with False show ?thesis by (auto dest: take_action_Inl)
    qed
  next
    case (Inr st'')
    with run co have "consume (drop k rest) st'' = Inl e" by simp
    then show ?thesis by blast
  qed
qed


lemma parts_ok_Cons: "parts_ok (x # rest) \<Longrightarrow> parts_ok rest"
  by (simp add: parts_ok_def)

lemma parts_ok_drop: "parts_ok rest \<Longrightarrow> parts_ok (drop k rest)"
  by (auto simp: parts_ok_def list_all_iff dest: in_set_dropD)

lemma parts_ok_Opt:
  "parts_ok ((Opt (Option_tuple (Some a) os sep ea), s) # rest) \<Longrightarrow>
   names a s \<and> (os, a) \<in> set option_string_actions"
  by (simp add: parts_ok_def)

lemma known_action:
  obtains (known) a os sep ea where "p = Opt (Option_tuple (Some a) os sep ea)"
  | (other) "\<And>a os sep ea. p \<noteq> Opt (Option_tuple (Some a) os sep ea)"
  by blast

lemma seen_mono:
  assumes "\<forall>a \<in> X. a \<in> A \<or> (\<exists>s \<in> S. names a s)" and "A \<subseteq> B" and "S \<subseteq> T"
  shows "\<forall>a \<in> X. a \<in> B \<or> (\<exists>s \<in> T. names a s)"
  using assms by blast

lemma consume_Inr:
  "consume parts st = Inr st' \<Longrightarrow> parts_ok parts \<Longrightarrow> state_ok st \<Longrightarrow>
   state_ok st' \<and>
   (\<forall>a \<in> set (seen_actions st'). a \<in> set (seen_actions st) \<or> (\<exists>s \<in> snd ` set parts. names a s))"
proof (induction parts arbitrary: st rule: length_induct)
  case (1 parts)
  show ?case
  proof (cases parts)
    case Nil
    with "1.prems" show ?thesis by simp
  next
    case (Cons x rest)
    obtain p s where x: "x = (p, s)" by (cases x) auto
    have IH: "state_ok st' \<and>
        (\<forall>a \<in> set (seen_actions st'). a \<in> set (seen_actions st1) \<or>
                (\<exists>s \<in> snd ` set (drop k rest). names a s))"
      if "consume (drop k rest) st1 = Inr st'" "state_ok st1" for k st1
    proof -
      have "length (drop k rest) < length parts"
        using Cons by simp
      moreover have "parts_ok (drop k rest)"
        using "1.prems"(2) Cons by (blast intro: parts_ok_drop dest: parts_ok_Cons)
      ultimately show ?thesis
        using "1.IH" that by blast
    qed
    have sub: "snd ` set (drop k rest) \<subseteq> snd ` set parts" for k
    proof -
      have "set (drop k rest) \<subseteq> set parts"
        using Cons set_drop_subset [of k rest] by auto
      then show ?thesis by (rule image_mono)
    qed
    show ?thesis
    proof (cases p rule: known_action)
      case other
      with "1.prems"(1) Cons x
      have "consume (drop 0 rest) (st\<lparr>extras := extras st @ [s]\<rparr>) = Inr st'"
        by (simp add: consume_skip)
      moreover from "1.prems"(3) have "state_ok (st\<lparr>extras := extras st @ [s]\<rparr>)"
        by simp
      ultimately have r: "state_ok st' \<and>
        (\<forall>a \<in> set (seen_actions st').
            a \<in> set (seen_actions (st\<lparr>extras := extras st @ [s]\<rparr>)) \<or>
            (\<exists>s \<in> snd ` set (drop 0 rest). names a s))"
        by (rule IH)
      have "set (seen_actions (st\<lparr>extras := extras st @ [s]\<rparr>)) \<subseteq> set (seen_actions st)"
        by simp
      from seen_mono [OF conjunct2 [OF r] this sub] conjunct1 [OF r] show ?thesis
        by (rule conjI [rotated])
    next
      case (known a os sep ea)
      with "1.prems" Cons x have
        run: "consume ((Opt (Option_tuple (Some a) os sep ea), s) # rest) st = Inr st'" and
        ok: "names a s" "(os, a) \<in> set option_string_actions"
        by (auto dest: parts_ok_Opt)
      from consume_step_Inr [OF run ok(2)] obtain args st'' k where
        ta: "take_action a args st = Inr st''" and
        rec: "consume (drop k rest) st'' = Inr st'"
        by blast
      from take_action_Inr [OF ta] "1.prems"(3) have
        st'': "state_ok st''" "seen_actions st'' = seen_actions st @ [a]"
        by auto
      from IH [OF rec st''(1)] have
        "state_ok st'" and
        seen: "\<forall>b \<in> set (seen_actions st'). b \<in> set (seen_actions st'') \<or>
                (\<exists>s \<in> snd ` set (drop k rest). names b s)"
        by blast+
      have s: "s \<in> snd ` set parts" using Cons x by force
      have "\<forall>b \<in> set (seen_actions st'). b \<in> set (seen_actions st) \<or>
                (\<exists>s \<in> snd ` set parts. names b s)"
      proof
        fix b
        assume "b \<in> set (seen_actions st')"
        with seen have "b \<in> set (seen_actions st'') \<or>
            (\<exists>s \<in> snd ` set (drop k rest). names b s)" ..
        then show "b \<in> set (seen_actions st) \<or> (\<exists>s \<in> snd ` set parts. names b s)"
        proof
          assume "b \<in> set (seen_actions st'')"
          with st''(2) have "b \<in> set (seen_actions st) \<or> b = a" by auto
          with ok(1) s show ?thesis by blast
        next
          assume "\<exists>s \<in> snd ` set (drop k rest). names b s"
          with sub [of k] show ?thesis by blast
        qed
      qed
      with \<open>state_ok st'\<close> show ?thesis ..
    qed
  qed
qed


lemma consume_Inl:
  "consume parts st = Inl e \<Longrightarrow> parts_ok parts \<Longrightarrow>
   (e = Print_help \<and> (\<exists>s \<in> snd ` set parts. names Help s)) \<or> known_error e"
proof (induction parts arbitrary: st rule: length_induct)
  case (1 parts)
  show ?case
  proof (cases parts)
    case Nil
    with "1.prems" show ?thesis by simp
  next
    case (Cons x rest)
    obtain p s where x: "x = (p, s)" by (cases x) auto
    have sub: "snd ` set (drop k rest) \<subseteq> snd ` set parts" for k
    proof -
      have "set (drop k rest) \<subseteq> set parts"
        using Cons set_drop_subset [of k rest] by auto
      then show ?thesis by (rule image_mono)
    qed
    have IH: "(e = Print_help \<and> (\<exists>s \<in> snd ` set parts. names Help s)) \<or> known_error e"
      if "consume (drop k rest) st1 = Inl e" for k st1
    proof -
      have "length (drop k rest) < length parts"
        using Cons by simp
      moreover have "parts_ok (drop k rest)"
        using "1.prems"(2) Cons by (blast intro: parts_ok_drop dest: parts_ok_Cons)
      ultimately have
        "(e = Print_help \<and> (\<exists>s \<in> snd ` set (drop k rest). names Help s)) \<or> known_error e"
        using "1.IH" that by blast
      with sub [of k] show ?thesis by blast
    qed
    show ?thesis
    proof (cases p rule: known_action)
      case other
      with "1.prems"(1) Cons x
      have "consume (drop 0 rest) (st\<lparr>extras := extras st @ [s]\<rparr>) = Inl e"
        by (simp add: consume_skip)
      then show ?thesis by (rule IH)
    next
      case (known a os sep ea)
      with "1.prems" Cons x have
        run: "consume ((Opt (Option_tuple (Some a) os sep ea), s) # rest) st = Inl e" and
        ok: "names a s" "(os, a) \<in> set option_string_actions"
        by (auto dest: parts_ok_Opt)
      have s: "s \<in> snd ` set parts" using Cons x by force
      from consume_step_Inl [OF run ok(2)] show ?thesis
      proof (elim disjE exE)
        assume "e = Print_help \<and> a = Help"
        with ok(1) s show ?thesis by blast
      next
        assume "known_error e"
        then show ?thesis ..
      next
        fix st'' k
        assume "consume (drop k rest) st'' = Inl e"
        then show ?thesis by (rule IH)
      qed
    qed
  qed
qed

lemma is_count_optionD:
  "is_count_option p \<Longrightarrow> \<exists>os. p = Opt (Option_tuple (Some Clone_count) os None None)"
  by (cases p rule: is_count_option.cases) simp_all

lemma bad_count_tl: "bad_count ((Arg, v) # rest) \<Longrightarrow> bad_count rest"
  by (cases rest) auto

lemma bad_count_skip:
  "bad_count ((p, s) # rest) \<Longrightarrow> \<not> is_count_option p \<Longrightarrow> bad_count rest"
  by (cases rest) auto

lemma consume_bad_count:
  "bad_count parts \<Longrightarrow> parts_ok parts \<Longrightarrow> consume parts st \<noteq> Inr st'"
proof (induction parts arbitrary: st rule: length_induct)
  case (1 parts)
  show ?case
  proof (cases parts)
    case Nil
    with "1.prems" show ?thesis by simp
  next
    case (Cons x rest)
    obtain p s where x: "x = (p, s)" by (cases x) auto
    have IH: "consume (drop k rest) st1 \<noteq> Inr st'" if "bad_count (drop k rest)" for k st1
    proof -
      have "length (drop k rest) < length parts"
        using Cons by simp
      moreover have "parts_ok (drop k rest)"
        using "1.prems"(2) Cons by (blast intro: parts_ok_drop dest: parts_ok_Cons)
      ultimately show ?thesis
        using "1.IH" that by blast
    qed
    show ?thesis
    proof (cases p rule: known_action)
      case other
      then have "\<not> is_count_option p"
        by (blast dest: is_count_optionD)
      with "1.prems"(1) Cons x have "bad_count (drop 0 rest)"
        by (auto dest: bad_count_skip)
      from IH [OF this] other Cons x show ?thesis
        by (simp add: consume_skip)
    next
      case (known a os sep ea)
      with "1.prems" Cons x have
        ok: "(os, a) \<in> set option_string_actions" and
        bad: "bad_count ((Opt (Option_tuple (Some a) os sep ea), s) # rest)"
        by (auto dest: parts_ok_Opt)
      show ?thesis
      proof
        assume "consume parts st = Inr st'"
        with known Cons x have
          run: "consume ((Opt (Option_tuple (Some a) os sep ea), s) # rest) st = Inr st'"
          by simp
        from consume_step_Inr [OF run ok] obtain args st'' k where
          ta: "take_action a args st = Inr st''" and
          rec: "consume (drop k rest) st'' = Inr st'" and
          shape: "nargs a = None \<and>
              ((\<exists>v. ea = Some v \<and> args = [v] \<and> k = 0) \<or>
               (\<exists>v rest'. ea = None \<and> rest = (Arg, v) # rest' \<and> args = [v] \<and> k = 1))
            \<or> a = Greet \<and> args = [] \<and> k = 0"
          by blast
        have "bad_count (drop k rest)"
        proof (cases "is_count_option (Opt (Option_tuple (Some a) os sep ea))")
          case True
          then have a: "a = Clone_count" "sep = None" "ea = None"
            by (auto dest: is_count_optionD)
          with shape obtain v rest' where
            rest: "rest = (Arg, v) # rest'" and args: "args = [v]" and k: "k = 1"
            by auto
          from ta a args have "py_int v \<noteq> None"
            by (auto split: option.splits)
          with bad rest a have "bad_count ((Arg, v) # rest')"
            by simp
          with rest k show ?thesis
            by (auto dest: bad_count_tl)
        next
          case False
          with bad have b: "bad_count rest"
            by (rule bad_count_skip)
          from shape show ?thesis
          proof (elim disjE conjE exE)
            fix v rest'
            assume "rest = (Arg, v) # rest'" "k = 1"
            with b show ?thesis by (auto dest: bad_count_tl)
          qed (use b in simp_all)
        qed
        from IH [OF this] rec show False ..
      qed
    qed
  qed
qed

subsection \<open>The result of parsing\<close>

lemma mentions_iff: "mentions a argv = (\<exists>s \<in> set argv. names a s)"
  by (simp add: mentions_def list_ex_iff)

lemma state_ok_initial: "state_ok initial_state"
  by (simp add: state_ok_def initial_state_def)

lemma parse_known_args_Inr:
  assumes "parse_known_args argv = Inr (args, ex)"
  shows "mentions Clone_name argv \<and> mentions Clone_count argv \<and> mentions Greet argv \<and>
         clone_name args \<noteq> None \<and> clone_count args \<noteq> None \<and> greet args"
proof -
  from assms obtain parts st where
    pat: "arg_strings_pattern argv = Inr parts" and
    con: "consume parts initial_state = Inr st" and
    req: "filter (\<lambda>a. a \<notin> set (seen_actions st) \<and> required a) actions = []" and
    args: "args = ns st"
    by (auto simp: parse_known_args_def Let_def split: sum.splits if_splits)
  from req have seen: "Clone_name \<in> set (seen_actions st)" "Clone_count \<in> set (seen_actions st)"
    "Greet \<in> set (seen_actions st)"
    by (auto simp: actions_def split: if_splits)
  from consume_Inr [OF con pattern_ok [OF pat] state_ok_initial] have
    ok: "state_ok st" and
    named: "\<forall>a \<in> set (seen_actions st). a \<in> set (seen_actions initial_state) \<or>
             (\<exists>s \<in> snd ` set parts. names a s)"
    by blast+
  have "snd ` set parts = set argv"
    using pattern_strings [OF pat] by (metis set_map)
  with named have "\<forall>a \<in> set (seen_actions st). mentions a argv"
    by (simp add: mentions_iff initial_state_def)
  with seen ok args show ?thesis
    by (simp add: state_ok_def)
qed

lemma parse_known_args_Inl:
  assumes "parse_known_args argv = Inl e"
  shows "(e = Print_help \<and> mentions Help argv) \<or> known_error e"
proof (cases "arg_strings_pattern argv")
  case (Inl e')
  with assms have "e' = e" by (simp add: parse_known_args_def)
  with Inl show ?thesis by (auto dest: pattern_error)
next
  case (Inr parts)
  have argv: "snd ` set parts = set argv"
    using pattern_strings [OF Inr] by (metis set_map)
  show ?thesis
  proof (cases "consume parts initial_state")
    case (Inl e')
    with assms Inr have "e' = e" by (simp add: parse_known_args_def)
    with consume_Inl [OF Inl pattern_ok [OF Inr]] argv show ?thesis
      by (simp add: mentions_iff)
  next
    case (Inr st)
    with assms \<open>arg_strings_pattern argv = Inr parts\<close> show ?thesis
      by (auto simp: parse_known_args_def Let_def split: if_splits)
  qed
qed

lemma parse_optional_count:
  "parse_optional ''-n'' = Inr (Some (Option_tuple (Some Clone_count) ''-n'' None None))"
  "parse_optional ''--clone_count'' =
     Inr (Some (Option_tuple (Some Clone_count) ''--clone_count'' None None))"
  by (simp_all add: parse_optional_def option_string_actions_eq)

lemma unparseable_bad_count:
  "unparseable_count argv \<Longrightarrow> arg_strings_pattern argv = Inr parts \<Longrightarrow> bad_count parts"
proof (induction argv arbitrary: parts rule: unparseable_count.induct)
  case (1 s v rest)
  from "1.prems" have s: "s \<noteq> ''--''" by simp
  with "1.prems"(2) obtain ot parts' where
    po: "parse_optional s = Inr ot" and
    pat: "arg_strings_pattern (v # rest) = Inr parts'" and
    parts: "parts = ((case ot of None \<Rightarrow> Arg | Some t \<Rightarrow> Opt t), s) # parts'"
    by (auto split: sum.splits)
  from pattern_strings [OF pat] obtain q parts'' where
    parts': "parts' = (q, v) # parts''"
    by (cases parts') auto
  show ?case
  proof (cases "(s = ''-n'' \<or> s = ''--clone_count'') \<and> py_int v = None")
    case True
    with po have "ot = Some (Option_tuple (Some Clone_count) s None None)"
      by (auto simp: parse_optional_count)
    with True parts parts' show ?thesis by simp
  next
    case False
    with "1.prems"(1) have "unparseable_count (v # rest)" by auto
    from "1.IH" [OF this pat] parts parts' show ?thesis by simp
  qed
qed simp_all

lemma parse_known_args_unparseable:
  assumes "unparseable_count argv"
  shows "parse_known_args argv \<noteq> Inr r"
proof
  assume "parse_known_args argv = Inr r"
  then obtain parts st where
    pat: "arg_strings_pattern argv = Inr parts" and
    con: "consume parts initial_state = Inr st"
    by (auto simp: parse_known_args_def Let_def split: sum.splits if_splits)
  from consume_bad_count [OF unparseable_bad_count [OF assms pat] pattern_ok [OF pat]] con
  show False by blast
qed

section \<open>Runs of the script\<close>

lemma known_error_message:
  "known_error (ArgumentError a reason) \<Longrightarrow> usage_message (str_of_ArgumentError a reason)"
  "known_error (Error m) \<Longrightarrow> usage_message m"
  by (auto simp: usage_message_def)

lemma parse_args_Return:
  "parse_args argv w = Return args w' \<Longrightarrow> w' = w \<and> parse_known_args argv = Inr (args, [])"
  by (auto simp: parse_args_def error_def split: sum.splits interrupt.splits prod.splits if_splits)

lemma parse_args_cases:
  obtains (return) args where
      "parse_args argv w = Return args w" and "parse_known_args argv = Inr (args, [])"
  | (helps) "parse_args argv w = SystemExit 0 (print_help w)" and "mentions Help argv"
  | (fails) message where "parse_args argv w = error message w" and "usage_message message"
proof (cases "parse_known_args argv")
  case (Inl e)
  from parse_known_args_Inl [OF Inl] show ?thesis
  proof
    assume "e = Print_help \<and> mentions Help argv"
    with Inl helps show ?thesis by (simp add: parse_args_def)
  next
    assume k: "known_error e"
    show ?thesis
    proof (cases e)
      case (ArgumentError a reason)
      with Inl k fails [of "str_of_ArgumentError a reason"] show ?thesis
        by (simp add: parse_args_def known_error_message del: known_error.simps)
    next
      case (Error m)
      with Inl k fails [of m] show ?thesis
        by (simp add: parse_args_def known_error_message del: known_error.simps)
    next
      case Print_help
      with k show ?thesis by simp
    qed
  qed
next
  case (Inr r)
  obtain args ex where r: "r = (args, ex)" by (cases r) auto
  show ?thesis
  proof (cases "ex = []")
    case True
    with Inr r return show ?thesis by (simp add: parse_args_def)
  next
    case False
    have "usage_message (''unrecognized arguments: '' @ join '' '' ex)"
      by (simp add: usage_message_def)
    with Inr r False fails [of "''unrecognized arguments: '' @ join '' '' ex"] show ?thesis
      by (simp add: parse_args_def)
  qed
qed

lemma main_Return:
  assumes "parse_args argv w = Return args w'"
  shows "\<exists>n. clone_count args = Some n \<and> greet args \<and> clone_name args \<noteq> None \<and>
             main argv w =
               (0, w\<lparr>stdout := stdout w @
                      concat (map (\<lambda>i. greeting (clone_name args) i @ [newline]) [0..n - 1])\<rparr>)"
proof -
  from parse_args_Return [OF assms] have w: "w' = w" and
    p: "parse_known_args argv = Inr (args, [])" by simp_all
  from parse_known_args_Inr [OF p] obtain n where n: "clone_count args = Some n"
    and g: "greet args" "clone_name args \<noteq> None"
    by auto
  from assms w have "main argv w = greet_clones args w"
    by (simp add: main_def)
  with n g greet_clones_Some [OF n] show ?thesis by simp
qed

lemma main_error:
  "parse_args argv w = error message w \<Longrightarrow>
   main argv w =
     (2, w\<lparr>stderr := stderr w @ format_usage @ prog @ '': error: '' @ message @ [newline]\<rparr>)"
  by (simp add: main_def error_def)

lemma main_help:
  "parse_args argv w = SystemExit 0 (print_help w) \<Longrightarrow>
   main argv w = (0, w\<lparr>stdout := stdout w @ format_help\<rparr>)"
  by (simp add: main_def print_help_def)

subsection \<open>Lines\<close>

lemma split_lines_line:
  "newline \<notin> set l \<Longrightarrow> split_lines acc (l @ newline # rest) = (acc @ l) # split_lines [] rest"
  by (induction l arbitrary: acc) auto

lemma lines_of_records:
  "\<forall>l \<in> set ls. newline \<notin> set l \<Longrightarrow> lines_of (concat (map (\<lambda>l. l @ [newline]) ls)) = ls"
proof (induction ls)
  case Nil
  then show ?case by (simp add: lines_of_def)
next
  case (Cons l ls)
  then have "newline \<notin> set l" and IH: "split_lines [] (concat (map (\<lambda>l. l @ [newline]) ls)) = ls"
    by (simp_all add: lines_of_def)
  from split_lines_line [OF this(1), of "[]" "concat (map (\<lambda>l. l @ [newline]) ls)"] IH
  show ?case by (simp add: lines_of_def)
qed

lemma isdigit_digit_char: "d < 10 \<Longrightarrow> isdigit (digit_char d)"
  by (simp add: isdigit_def digit_char_def ord_def)

lemma str_nat_digits: "list_all isdigit (str_nat n)"
proof (induction n rule: str_nat.induct)
  case (1 n)
  show ?case
  proof (cases "n < 10")
    case True
    then show ?thesis
      by (subst str_nat.simps) (simp add: isdigit_digit_char)
  next
    case False
    with 1 show ?thesis
      by (subst str_nat.simps) (simp add: isdigit_digit_char)
  qed
qed

lemma newline_str_int: "newline \<notin> set (str_int i)"
proof -
  have "newline \<notin> set (str_nat n)" for n
    using str_nat_digits [of n] by (auto simp: list_all_iff isdigit_def newline_def ord_def)
  then show ?thesis
    by (simp add: str_int_def newline_def)
qed

lemma newline_greeting: "newline \<notin> set X \<Longrightarrow> newline \<notin> set (greeting (Some X) i)"
  using newline_str_int [of i]
  by (simp add: greeting_def format_str_def emoji_def) (simp add: newline_def)

subsection \<open>The usual command line\<close>

lemma not_positional_dashes: "\<not> positional ''--''"
  by code_simp

lemma parse_optional_exact:
  "parse_optional ''-c'' = Inr (Some (Option_tuple (Some Clone_name) ''-c'' None None))"
  "parse_optional ''--greet'' = Inr (Some (Option_tuple (Some Greet) ''--greet'' None None))"
  by (simp_all add: parse_optional_def option_string_actions_eq)

lemma canonical_parse:
  assumes "positional X" and "positional S" and "py_int S = Some n"
  shows "parse_known_args [''-c'', X, ''-n'', S, ''--greet''] =
           Inr (\<lparr>clone_name = Some X, clone_count = Some n, greet = True\<rparr>, [])"
proof -
  from assms not_positional_dashes have ne: "X \<noteq> ''--''" "S \<noteq> ''--''"
    by auto
  from assms have po: "parse_optional X = Inr None" "parse_optional S = Inr None"
    by (simp_all add: positional_def)
  have pat: "arg_strings_pattern [''-c'', X, ''-n'', S, ''--greet''] =
    Inr [(Opt (Option_tuple (Some Clone_name) ''-c'' None None), ''-c''), (Arg, X),
         (Opt (Option_tuple (Some Clone_count) ''-n'' None None), ''-n''), (Arg, S),
         (Opt (Option_tuple (Some Greet) ''--greet'' None None), ''--greet'')]"
    using ne po by (simp add: parse_optional_exact parse_optional_count)
  show ?thesis
    using assms(3)
    by (simp only: parse_known_args_def pat)
       (simp add: consume_optional.simps match_argument_def initial_state_def actions_def)
qed

lemma canonical_no_greet:
  assumes "positional X" and "positional S" and "py_int S = Some n"
  shows "parse_known_args [''-c'', X, ''-n'', S] =
           Inl (Error ''the following arguments are required: --greet'')"
proof -
  from assms not_positional_dashes have ne: "X \<noteq> ''--''" "S \<noteq> ''--''"
    by auto
  from assms have po: "parse_optional X = Inr None" "parse_optional S = Inr None"
    by (simp_all add: positional_def)
  have pat: "arg_strings_pattern [''-c'', X, ''-n'', S] =
    Inr [(Opt (Option_tuple (Some Clone_name) ''-c'' None None), ''-c''), (Arg, X),
         (Opt (Option_tuple (Some Clone_count) ''-n'' None None), ''-n''), (Arg, S)]"
    using ne po by (simp add: parse_optional_exact parse_optional_count)
  show ?thesis
    using assms(3)
    by (simp only: parse_known_args_def pat)
       (simp add: consume_optional.simps match_argument_def initial_state_def actions_def
          get_action_name_def)
qed

section \<open>The claims about the greetings\<close>

text \<open>
  Claim C1, as amended. The claim counts lines of standard output, and a clone name
  is written as it is, so it holds for the names without a line feed: when
  \<^verbatim>\<open>parse_args\<close> returns the name \<open>X\<close>, the count \<open>N \<ge> 0\<close> and the flag, and \<open>X\<close> holds no
  line feed, the script ends with status 0 and appends to standard output exactly \<open>N\<close>
  lines, the \<open>i\<close>-th being the greeting of \<open>X\<close> followed by the decimal \<open>i\<close>, for
  \<open>i\<close> from 0 to \<open>N - 1\<close> in ascending order. Nothing else of the world changes.
\<close>

theorem C1_greeting_lines:
  assumes "parse_args argv w = Return \<lparr>clone_name = Some X, clone_count = Some N, greet = True\<rparr> w'"
    and "0 \<le> N"
    and "newline \<notin> set X"
  shows "\<exists>text. main argv w = (0, w\<lparr>stdout := stdout w @ text\<rparr>) \<and>
           lines_of text = map (\<lambda>i. emoji @ '' says: Hello, '' @ X @ str_int i @ ''!'') [0..N - 1] \<and>
           length (lines_of text) = nat N"
proof -
  let ?lines = "map (greeting (Some X)) [0..N - 1]"
  let ?out = "concat (map (\<lambda>l. l @ [newline]) ?lines)"
  have out: "?out = concat (map (\<lambda>i. greeting (Some X) i @ [newline]) [0..N - 1])"
    by (simp add: comp_def)
  from main_Return [OF assms(1)]
  have "main argv w =
      (0, w\<lparr>stdout := stdout w @
               concat (map (\<lambda>i. greeting (Some X) i @ [newline]) [0..N - 1])\<rparr>)"
    by simp
  with out have 1: "main argv w = (0, w\<lparr>stdout := stdout w @ ?out\<rparr>)"
    by (simp only:)
  have "\<forall>l \<in> set ?lines. newline \<notin> set l"
    using assms(3) by (auto simp: newline_greeting)
  then have lines: "lines_of ?out = ?lines"
    by (rule lines_of_records)
  have "?lines = map (\<lambda>i. emoji @ '' says: Hello, '' @ X @ str_int i @ ''!'') [0..N - 1]"
    by (simp add: greeting_def format_str_def)
  with lines have 2:
    "lines_of ?out = map (\<lambda>i. emoji @ '' says: Hello, '' @ X @ str_int i @ ''!'') [0..N - 1]"
    by (simp only:)
  have "length ?lines = nat N"
    using assms(2) by simp
  with lines have 3: "length (lines_of ?out) = nat N"
    by (simp only:)
  from 1 2 3 show ?thesis by blast
qed

text \<open>The theorem at \<^verbatim>\<open>-c Al -n 2 --greet\<close>.\<close>

theorem C1_witness:
  "parse_args [''-c'', ''Al'', ''-n'', ''2'', ''--greet''] empty_world =
     Return \<lparr>clone_name = Some ''Al'', clone_count = Some 2, greet = True\<rparr> empty_world
   \<and> (0::int) \<le> 2 \<and> newline \<notin> set ''Al''
   \<and> (\<exists>text. main [''-c'', ''Al'', ''-n'', ''2'', ''--greet''] empty_world =
               (0, empty_world\<lparr>stdout := stdout empty_world @ text\<rparr>) \<and>
             lines_of text =
               map (\<lambda>i. emoji @ '' says: Hello, '' @ ''Al'' @ str_int i @ ''!'') [0..2 - 1] \<and>
             length (lines_of text) = nat 2)"
proof -
  have p: "parse_args [''-c'', ''Al'', ''-n'', ''2'', ''--greet''] empty_world =
     Return \<lparr>clone_name = Some ''Al'', clone_count = Some 2, greet = True\<rparr> empty_world"
    by code_simp
  have n: "newline \<notin> set ''Al''"
    by (simp add: newline_def)
  have z: "(0::int) \<le> 2" by simp
  from C1_greeting_lines [OF p z n] p n z show ?thesis by blast
qed

text \<open>The claim as stated fails for the valid command line whose clone name is
  \<^verbatim>\<open>a\<close>, a line feed, \<^verbatim>\<open>b\<close> and whose count is 1: standard output has two lines, and none
  is the greeting of the claim.\<close>

theorem C1_counterexample:
  "parse_args [''-c'', [CHR ''a'', newline, CHR ''b''], ''-n'', ''1'', ''--greet''] empty_world =
     Return \<lparr>clone_name = Some [CHR ''a'', newline, CHR ''b''], clone_count = Some 1,
             greet = True\<rparr> empty_world
   \<and> lines_of (stdout (snd (main [''-c'', [CHR ''a'', newline, CHR ''b''], ''-n'', ''1'',
                                  ''--greet''] empty_world))) =
       [emoji @ '' says: Hello, a'', ''b0!'']
   \<and> length (lines_of (stdout (snd (main [''-c'', [CHR ''a'', newline, CHR ''b''], ''-n'', ''1'',
                                  ''--greet''] empty_world)))) = 2"
  by code_simp

text \<open>
  Claim C3. When \<^verbatim>\<open>parse_args\<close> returns (all three arguments are valid) and the count is
  zero or negative, the script ends with status 0 and leaves the world as it was: no
  line is written.
\<close>

theorem C3_nonpositive_count:
  assumes "parse_args argv w = Return args w'"
    and "clone_count args = Some N"
    and "N \<le> 0"
  shows "main argv w = (0, w)"
proof -
  from main_Return [OF assms(1)] assms(2)
  have "main argv w =
      (0, w\<lparr>stdout := stdout w @
               concat (map (\<lambda>i. greeting (clone_name args) i @ [newline]) [0..N - 1])\<rparr>)"
    by auto
  moreover from assms(3) have "[0..N - 1] = []"
    by simp
  ultimately show ?thesis by simp
qed

text \<open>The theorem at \<^verbatim>\<open>-c Bob -n -3 --greet\<close>.\<close>

theorem C3_witness:
  "parse_args [''-c'', ''Bob'', ''-n'', ''-3'', ''--greet''] empty_world =
     Return \<lparr>clone_name = Some ''Bob'', clone_count = Some (- 3), greet = True\<rparr> empty_world
   \<and> clone_count \<lparr>clone_name = Some ''Bob'', clone_count = Some (- 3), greet = True\<rparr> = Some (- 3)
   \<and> (- 3 :: int) \<le> 0
   \<and> main [''-c'', ''Bob'', ''-n'', ''-3'', ''--greet''] empty_world = (0, empty_world)"
proof -
  have p: "parse_args [''-c'', ''Bob'', ''-n'', ''-3'', ''--greet''] empty_world =
     Return \<lparr>clone_name = Some ''Bob'', clone_count = Some (- 3), greet = True\<rparr> empty_world"
    by code_simp
  have c: "clone_count \<lparr>clone_name = Some ''Bob'', clone_count = Some (- 3), greet = True\<rparr> =
     Some (- 3)"
    by simp
  have z: "(- 3 :: int) \<le> 0" by simp
  from C3_nonpositive_count [OF p c z] p c z show ?thesis by blast
qed



text \<open>
  Claim C9. Two runs, from the same world, whose command lines parse to the same
  clone name and the same count end in the same way, with the same output; and the
  greetings do not depend on the value of the flag in the namespace.
\<close>

theorem C9_deterministic:
  assumes "parse_args argv1 w = Return args1 w1"
    and "parse_args argv2 w = Return args2 w2"
    and "clone_name args1 = clone_name args2"
    and "clone_count args1 = clone_count args2"
  shows "main argv1 w = main argv2 w \<and>
         greet_clones (args1\<lparr>greet := b\<rparr>) w = greet_clones args1 w"
proof
  from main_Return [OF assms(1)] main_Return [OF assms(2)] assms(3,4)
  show "main argv1 w = main argv2 w" by auto
  show "greet_clones (args1\<lparr>greet := b\<rparr>) w = greet_clones args1 w"
    by (cases "clone_count args1") (simp_all add: greet_clones_def)
qed

text \<open>The theorem at two command lines that spell the same name and count
  differently.\<close>

theorem C9_witness:
  "parse_args [''-c'', ''Bob'', ''-n'', ''3'', ''--greet''] empty_world =
     Return \<lparr>clone_name = Some ''Bob'', clone_count = Some 3, greet = True\<rparr> empty_world
   \<and> parse_args [''--greet'', ''--clone_count=+3'', ''-cBob''] empty_world =
     Return \<lparr>clone_name = Some ''Bob'', clone_count = Some 3, greet = True\<rparr> empty_world
   \<and> main [''-c'', ''Bob'', ''-n'', ''3'', ''--greet''] empty_world =
     main [''--greet'', ''--clone_count=+3'', ''-cBob''] empty_world
   \<and> greet_clones (\<lparr>clone_name = Some ''Bob'', clone_count = Some 3, greet = True\<rparr>\<lparr>greet := False\<rparr>)
        empty_world =
     greet_clones \<lparr>clone_name = Some ''Bob'', clone_count = Some 3, greet = True\<rparr> empty_world"
proof -
  have p1: "parse_args [''-c'', ''Bob'', ''-n'', ''3'', ''--greet''] empty_world =
     Return \<lparr>clone_name = Some ''Bob'', clone_count = Some 3, greet = True\<rparr> empty_world"
    by code_simp
  have p2: "parse_args [''--greet'', ''--clone_count=+3'', ''-cBob''] empty_world =
     Return \<lparr>clone_name = Some ''Bob'', clone_count = Some 3, greet = True\<rparr> empty_world"
    by code_simp
  from C9_deterministic [OF p1 p2 refl refl, of False] p1 p2 show ?thesis by blast
qed

subsection \<open>The decimal digits of an index\<close>

lemma digits_value_snoc:
  "list_all isdigit ds \<Longrightarrow> isdigit d \<Longrightarrow>
   digits_value acc (ds @ [d]) =
     map_option (\<lambda>v. 10 * v + (ord d - 48)) (digits_value acc ds)"
  by (induction ds arbitrary: acc) simp_all

lemma ord_digit_char: "d < 10 \<Longrightarrow> ord (digit_char d) - 48 = d"
  by (simp add: digit_char_def ord_def)

lemma str_nat_decimal: "digits_value 0 (str_nat n) = Some n"
proof (induction n rule: str_nat.induct)
  case (1 n)
  show ?case
  proof (cases "n < 10")
    case True
    then show ?thesis
      by (subst str_nat.simps) (simp add: isdigit_digit_char ord_digit_char)
  next
    case False
    have "digits_value 0 (str_nat (n div 10) @ [digit_char (n mod 10)]) =
        map_option (\<lambda>v. 10 * v + (ord (digit_char (n mod 10)) - 48))
          (digits_value 0 (str_nat (n div 10)))"
      by (rule digits_value_snoc) (simp_all add: str_nat_digits isdigit_digit_char)
    with False "1.IH" show ?thesis
      by (subst str_nat.simps) (simp add: ord_digit_char)
  qed
qed

lemma str_int_decimal:
  "0 \<le> i \<Longrightarrow> list_all isdigit (str_int i) \<and> digits_value 0 (str_int i) = Some (nat i)"
  by (simp add: str_int_def str_nat_digits str_nat_decimal)

text \<open>
  Claim C10. The clone name is written as it is: when \<^verbatim>\<open>parse_args\<close> returns the name
  \<open>S\<close> and the count \<open>N\<close>, the script appends to standard output, for every \<open>i\<close>
  from 0 to \<open>N - 1\<close> in this order, the greeting prefix, \<open>S\<close>, the decimal digits of
  \<open>i\<close>, \<^verbatim>\<open>!\<close> and a line feed (\<open>str_int i\<close> consists of digits whose value is \<open>i\<close>).
  And for some clone name with a line feed the number of lines on standard output is
  greater than the count.
\<close>

theorem C10_verbatim:
  "(parse_args argv w = Return args w' \<and> clone_name args = Some S \<and> clone_count args = Some N \<longrightarrow>
      main argv w =
        (0, w\<lparr>stdout := stdout w @
               concat (map (\<lambda>i. emoji @ '' says: Hello, '' @ S @ str_int i @ ''!'' @ [newline])
                         [0..N - 1])\<rparr>)) \<and>
   (0 \<le> i \<longrightarrow> list_all isdigit (str_int i) \<and> digits_value 0 (str_int i) = Some (nat i)) \<and>
   (\<exists>argv S N.
      parse_args argv empty_world =
        Return \<lparr>clone_name = Some S, clone_count = Some N, greet = True\<rparr> empty_world \<and>
      newline \<in> set S \<and>
      N < int (length (lines_of (stdout (snd (main argv empty_world))))))"
proof (intro conjI impI)
  assume a: "parse_args argv w = Return args w' \<and> clone_name args = Some S \<and>
    clone_count args = Some N"
  then have "parse_args argv w = Return args w'" by simp
  from main_Return [OF this] a
  show "main argv w =
        (0, w\<lparr>stdout := stdout w @
               concat (map (\<lambda>i. emoji @ '' says: Hello, '' @ S @ str_int i @ ''!'' @ [newline])
                         [0..N - 1])\<rparr>)"
    by (auto simp: greeting_def format_str_def)
next
  assume "0 \<le> i"
  then show "list_all isdigit (str_int i)" and "digits_value 0 (str_int i) = Some (nat i)"
    by (simp_all add: str_int_decimal)
next
  have "parse_args [''-c'', [CHR ''a'', newline, CHR ''b''], ''-n'', ''1'', ''--greet''] empty_world =
        Return \<lparr>clone_name = Some [CHR ''a'', newline, CHR ''b''], clone_count = Some 1,
                greet = True\<rparr> empty_world \<and>
      newline \<in> set [CHR ''a'', newline, CHR ''b''] \<and>
      1 < int (length (lines_of (stdout (snd (main [''-c'', [CHR ''a'', newline, CHR ''b''],
         ''-n'', ''1'', ''--greet''] empty_world)))))"
    by code_simp
  then show "\<exists>argv S N.
      parse_args argv empty_world =
        Return \<lparr>clone_name = Some S, clone_count = Some N, greet = True\<rparr> empty_world \<and>
      newline \<in> set S \<and>
      N < int (length (lines_of (stdout (snd (main argv empty_world)))))"
    by blast
qed

text \<open>The theorem at \<^verbatim>\<open>-c "x y" -n 2 --greet\<close> and at the number 12.\<close>

theorem C10_witness:
  "parse_args [''-c'', ''x y'', ''-n'', ''2'', ''--greet''] empty_world =
     Return \<lparr>clone_name = Some ''x y'', clone_count = Some 2, greet = True\<rparr> empty_world
   \<and> main [''-c'', ''x y'', ''-n'', ''2'', ''--greet''] empty_world =
        (0, empty_world\<lparr>stdout := stdout empty_world @
               concat (map (\<lambda>i. emoji @ '' says: Hello, '' @ ''x y'' @ str_int i @ ''!'' @ [newline])
                         [0..2 - 1])\<rparr>)
   \<and> (0::int) \<le> 12 \<and> list_all isdigit (str_int 12) \<and> digits_value 0 (str_int 12) = Some (nat 12)"
proof -
  have p: "parse_args [''-c'', ''x y'', ''-n'', ''2'', ''--greet''] empty_world =
     Return \<lparr>clone_name = Some ''x y'', clone_count = Some 2, greet = True\<rparr> empty_world"
    by code_simp
  have z: "(0::int) \<le> 12" by simp
  from C10_verbatim [of "[''-c'', ''x y'', ''-n'', ''2'', ''--greet'']" empty_world
      "\<lparr>clone_name = Some ''x y'', clone_count = Some 2, greet = True\<rparr>" empty_world
      "''x y''" 2 12] p z
  show ?thesis by simp
qed

section \<open>The claims about usage errors\<close>

lemma missing_is_error:
  assumes nohelp: "\<not> mentions Help argv"
    and miss: "\<not> mentions Clone_name argv \<or> \<not> mentions Clone_count argv \<or>
               \<not> mentions Greet argv \<or> unparseable_count argv"
  shows "\<exists>message. usage_message message \<and>
           main argv w =
             (2, w\<lparr>stderr := stderr w @ format_usage @ prog @ '': error: '' @ message @
                               [newline]\<rparr>)"
proof (cases rule: parse_args_cases [of argv w])
  case (return args)
  from parse_known_args_Inr [OF return(2)] parse_known_args_unparseable [of argv "(args, [])"]
    return(2) miss
  have False by blast
  then show ?thesis ..
next
  case helps
  with nohelp show ?thesis by simp
next
  case (fails message)
  from main_error [OF fails(1)] fails(2) show ?thesis by blast
qed




text \<open>
  Claim C4, as amended. A command line that omits \<^verbatim>\<open>--greet\<close> (no argument string starts
  with \<^verbatim>\<open>--g\<close>) and does not ask for help ends with status 2, a diagnostic on standard
  error and nothing on standard output. The flag has no default that stands in for
  it: with a valid name and a valid count, \<^verbatim>\<open>-c X -n S\<close>, the diagnostic says that
  \<^verbatim>\<open>--greet\<close> is required.
\<close>

theorem C4_greet_required:
  "(\<not> mentions Greet argv \<and> \<not> mentions Help argv \<longrightarrow>
      (\<exists>message. main argv w =
         (2, w\<lparr>stderr := stderr w @ format_usage @ prog @ '': error: '' @ message @
                           [newline]\<rparr>))) \<and>
   (positional X \<and> positional S \<and> py_int S = Some n \<longrightarrow>
      main [''-c'', X, ''-n'', S] w =
        (2, w\<lparr>stderr := stderr w @ format_usage @ prog @
               '': error: the following arguments are required: --greet'' @ [newline]\<rparr>))"
proof (intro conjI impI)
  assume "\<not> mentions Greet argv \<and> \<not> mentions Help argv"
  then have "\<not> mentions Help argv" and
    "\<not> mentions Clone_name argv \<or> \<not> mentions Clone_count argv \<or>
     \<not> mentions Greet argv \<or> unparseable_count argv"
    by simp_all
  from missing_is_error [OF this]
  show "\<exists>message. main argv w =
         (2, w\<lparr>stderr := stderr w @ format_usage @ prog @ '': error: '' @ message @
                           [newline]\<rparr>)"
    by blast
next
  assume "positional X \<and> positional S \<and> py_int S = Some n"
  then have "parse_known_args [''-c'', X, ''-n'', S] =
      Inl (Error ''the following arguments are required: --greet'')"
    by (simp add: canonical_no_greet)
  then have "parse_args [''-c'', X, ''-n'', S] w =
      error ''the following arguments are required: --greet'' w"
    by (simp add: parse_args_def)
  from main_error [OF this]
  show "main [''-c'', X, ''-n'', S] w =
        (2, w\<lparr>stderr := stderr w @ format_usage @ prog @
               '': error: the following arguments are required: --greet'' @ [newline]\<rparr>)"
    by simp
qed

text \<open>The theorem at \<^verbatim>\<open>--clone_name Bob --clone_count=3\<close> and at \<^verbatim>\<open>-c Bob -n 3\<close>.\<close>

theorem C4_witness:
  "\<not> mentions Greet [''--clone_name'', ''Bob'', ''--clone_count=3'']
   \<and> \<not> mentions Help [''--clone_name'', ''Bob'', ''--clone_count=3'']
   \<and> (\<exists>message. main [''--clone_name'', ''Bob'', ''--clone_count=3''] empty_world =
          (2, empty_world\<lparr>stderr := stderr empty_world @ format_usage @ prog @ '': error: '' @
                                      message @ [newline]\<rparr>))
   \<and> positional ''Bob'' \<and> positional ''3'' \<and> py_int ''3'' = Some 3
   \<and> main [''-c'', ''Bob'', ''-n'', ''3''] empty_world =
       (2, empty_world\<lparr>stderr := stderr empty_world @ format_usage @ prog @
              '': error: the following arguments are required: --greet'' @ [newline]\<rparr>)"
proof -
  have g: "\<not> mentions Greet [''--clone_name'', ''Bob'', ''--clone_count=3''] \<and>
           \<not> mentions Help [''--clone_name'', ''Bob'', ''--clone_count=3'']"
    by code_simp
  have c: "positional ''Bob'' \<and> positional ''3'' \<and> py_int ''3'' = Some 3"
    by code_simp
  note t = C4_greet_required [of "[''--clone_name'', ''Bob'', ''--clone_count=3'']" empty_world
      "''Bob''" "''3''" 3]
  from t g have 1:
    "\<exists>message. main [''--clone_name'', ''Bob'', ''--clone_count=3''] empty_world =
          (2, empty_world\<lparr>stderr := stderr empty_world @ format_usage @ prog @ '': error: '' @
                                      message @ [newline]\<rparr>)"
    by blast
  from t c have 2: "main [''-c'', ''Bob'', ''-n'', ''3''] empty_world =
       (2, empty_world\<lparr>stderr := stderr empty_world @ format_usage @ prog @
              '': error: the following arguments are required: --greet'' @ [newline]\<rparr>)"
    by blast
  from g c 1 2 show ?thesis by blast
qed

text \<open>The claim as stated fails at \<^verbatim>\<open>-c Bob -n 3 -h\<close>: name and count are valid,
  \<^verbatim>\<open>--greet\<close> is omitted, and the run ends with status 0 and the help text on standard
  output.\<close>

theorem C4_counterexample:
  "mentions Clone_name [''-c'', ''Bob'', ''-n'', ''3'', ''-h''] \<and>
   mentions Clone_count [''-c'', ''Bob'', ''-n'', ''3'', ''-h''] \<and>
   py_int ''3'' = Some 3 \<and>
   \<not> mentions Greet [''-c'', ''Bob'', ''-n'', ''3'', ''-h''] \<and>
   main [''-c'', ''Bob'', ''-n'', ''3'', ''-h''] empty_world =
     (0, \<lparr>stdout = format_help, stderr = [], outside = ()\<rparr>) \<and>
   length (lines_of format_help) = 11"
  by code_simp

text \<open>
  Claim C5, as amended. The script ends with status 0 whenever \<^verbatim>\<open>parse_args\<close> returns,
  as it does for \<^verbatim>\<open>-c X -n S --greet\<close> when \<open>X\<close> and \<open>S\<close> are read as arguments and
  \<^verbatim>\<open>int\<close> accepts \<open>S\<close>. Every other status is the status 2 of a usage error of
  \<^verbatim>\<open>parse_args\<close>, raised before anything is written to standard output; its message is
  one of: required arguments missing, an option without its argument, a value that
  \<^verbatim>\<open>int\<close> refuses, a value given to a flag, an ambiguous abbreviation, unrecognized
  arguments. The last three are not about missing or malformed required arguments.
\<close>

theorem C5_exit_status:
  "(parse_args argv w = Return args w' \<longrightarrow> fst (main argv w) = 0) \<and>
   (fst (main argv w) \<noteq> 0 \<longrightarrow>
      (\<exists>message. usage_message message \<and>
         main argv w =
           (2, w\<lparr>stderr := stderr w @ format_usage @ prog @ '': error: '' @ message @
                             [newline]\<rparr>))) \<and>
   (positional X \<and> positional S \<and> py_int S = Some n \<longrightarrow>
      fst (main [''-c'', X, ''-n'', S, ''--greet''] w) = 0)"
proof (intro conjI impI)
  assume "parse_args argv w = Return args w'"
  from main_Return [OF this] show "fst (main argv w) = 0" by auto
next
  assume nz: "fst (main argv w) \<noteq> 0"
  show "\<exists>message. usage_message message \<and>
         main argv w =
           (2, w\<lparr>stderr := stderr w @ format_usage @ prog @ '': error: '' @ message @
                             [newline]\<rparr>)"
  proof (cases rule: parse_args_cases [of argv w])
    case (return args)
    from main_Return [OF return(1)] nz show ?thesis by auto
  next
    case helps
    from main_help [OF helps(1)] nz show ?thesis by simp
  next
    case (fails message)
    from main_error [OF fails(1)] fails(2) show ?thesis by blast
  qed
next
  assume "positional X \<and> positional S \<and> py_int S = Some n"
  then have "parse_known_args [''-c'', X, ''-n'', S, ''--greet''] =
      Inr (\<lparr>clone_name = Some X, clone_count = Some n, greet = True\<rparr>, [])"
    by (simp add: canonical_parse)
  then have "parse_args [''-c'', X, ''-n'', S, ''--greet''] w =
      Return \<lparr>clone_name = Some X, clone_count = Some n, greet = True\<rparr> w"
    by (simp add: parse_args_def)
  from main_Return [OF this] show "fst (main [''-c'', X, ''-n'', S, ''--greet''] w) = 0"
    by auto
qed

text \<open>The theorem at \<^verbatim>\<open>--greet -n 7 -c Eve\<close>, \<^verbatim>\<open>-c Eve -n seven --greet\<close> and
  \<^verbatim>\<open>-c Eve -n 7 --greet\<close>.\<close>

theorem C5_witness:
  "parse_args [''--greet'', ''-n'', ''7'', ''-c'', ''Eve''] empty_world =
     Return \<lparr>clone_name = Some ''Eve'', clone_count = Some 7, greet = True\<rparr> empty_world
   \<and> fst (main [''--greet'', ''-n'', ''7'', ''-c'', ''Eve''] empty_world) = 0
   \<and> fst (main [''-c'', ''Eve'', ''-n'', ''seven'', ''--greet''] empty_world) \<noteq> 0
   \<and> (\<exists>message. usage_message message \<and>
         main [''-c'', ''Eve'', ''-n'', ''seven'', ''--greet''] empty_world =
           (2, empty_world\<lparr>stderr := stderr empty_world @ format_usage @ prog @ '': error: '' @
                                       message @ [newline]\<rparr>))
   \<and> positional ''Eve'' \<and> positional ''7'' \<and> py_int ''7'' = Some 7
   \<and> fst (main [''-c'', ''Eve'', ''-n'', ''7'', ''--greet''] empty_world) = 0"
proof -
  have p: "parse_args [''--greet'', ''-n'', ''7'', ''-c'', ''Eve''] empty_world =
     Return \<lparr>clone_name = Some ''Eve'', clone_count = Some 7, greet = True\<rparr> empty_world"
    by code_simp
  have nz: "fst (main [''-c'', ''Eve'', ''-n'', ''seven'', ''--greet''] empty_world) \<noteq> 0"
    by code_simp
  have c: "positional ''Eve'' \<and> positional ''7'' \<and> py_int ''7'' = Some 7"
    by code_simp
  note t = C5_exit_status [of _ empty_world _ empty_world "''Eve''" "''7''" 7]
  from t [of "[''--greet'', ''-n'', ''7'', ''-c'', ''Eve'']"] p
  have 1: "fst (main [''--greet'', ''-n'', ''7'', ''-c'', ''Eve''] empty_world) = 0"
    by blast
  from t [of "[''-c'', ''Eve'', ''-n'', ''seven'', ''--greet'']"] nz
  have 2: "\<exists>message. usage_message message \<and>
         main [''-c'', ''Eve'', ''-n'', ''seven'', ''--greet''] empty_world =
           (2, empty_world\<lparr>stderr := stderr empty_world @ format_usage @ prog @ '': error: '' @
                                       message @ [newline]\<rparr>)"
    by blast
  from t c have 3: "fst (main [''-c'', ''Eve'', ''-n'', ''7'', ''--greet''] empty_world) = 0"
    by blast
  from p nz c 1 2 3 show ?thesis by blast
qed

text \<open>The claim as stated fails at \<^verbatim>\<open>-c Bob -n 3 --greet extra\<close>: all required
  arguments are present and well-formed, and the run ends with status 2.\<close>

theorem C5_counterexample:
  "mentions Clone_name [''-c'', ''Bob'', ''-n'', ''3'', ''--greet'', ''extra''] \<and>
   mentions Clone_count [''-c'', ''Bob'', ''-n'', ''3'', ''--greet'', ''extra''] \<and>
   mentions Greet [''-c'', ''Bob'', ''-n'', ''3'', ''--greet'', ''extra''] \<and>
   py_int ''3'' = Some 3 \<and>
   main [''-c'', ''Bob'', ''-n'', ''3'', ''--greet'', ''extra''] empty_world =
     (2, \<lparr>stdout = [],
          stderr = format_usage @ ''tester.py: error: unrecognized arguments: extra'' @ [newline],
          outside = ()\<rparr>)"
  by code_simp

end
